theory Spec2Isabelle
  imports Main "HOL-Library.Word"
begin

unbundle bit_operations_syntax

section \<open>Data model of the CPU miner (cpuminer.go)\<close>

text \<open>
  The miner is written in Go.  Its machine integers are words of the width the source
  declares: \<open>uint32\<close> and \<open>int32\<close> are both \<open>32 word\<close> (a conversion between them
  keeps the bits; \<open>sint\<close> reads the signed value), \<open>uint64\<close> and \<open>int64\<close> are
  \<open>64 word\<close>, \<open>uint8\<close> is \<open>8 word\<close>.  A \<open>time.Time\<close> is an integer number of
  nanoseconds.  Hashes are natural numbers.
\<close>

type_synonym byte = "8 word"
type_synonym uint32 = "32 word"
type_synonym int32 = "32 word"
type_synonym uint64 = "64 word"
type_synonym hash = nat
type_synonym time = int

text \<open>The parts of \<open>wire.BlockHeader\<close>, \<open>wire.TxOut\<close>, \<open>wire.MsgTx\<close> and
  \<open>wire.MsgBlock\<close> the miner touches.\<close>

record blockheader =
  PrevBlock :: hash
  Bits :: uint32
  Timestamp :: time
  Nonce :: uint32
  ExtraData :: "byte list"
  EquihashSolution :: "byte list"

record txout =
  Value :: uint64

record msgtx =
  TxOut :: "txout list"

record msgblock =
  Header :: blockheader
  Transactions :: "msgtx list"

text \<open>What the consensus processor can answer: \<open>ProcessBlock\<close> returns \<open>(isOrphan, err)\<close>,
  where \<open>err\<close> is nil, a \<open>blockchain.RuleError\<close> with its error code, or any other error.\<close>

datatype error_code = ErrHighHash | ErrOtherCode nat

datatype process_err = RuleError error_code | InternalError

text \<open>The log lines of \<open>submitBlock\<close>, one constructor for each call of the logger.\<close>

datatype log_entry =
    LogUnexpected
  | LogReduceMinDifficulty
  | LogRejected
  | LogOrphan hash
  | LogAccepted uint64

text \<open>Run-time panics of the Go code that the model keeps as values.\<close>

datatype panic = IndexOutOfRange

text \<open>Operations on channels and wait groups, recorded in the order the miner performs
  them.  A worker is named by its identifier \<open>tid\<close>; its pool-shutdown channel \<open>quit\<close>
  and its abandon channel \<open>term\<close> are created together with it.\<close>

datatype event =
    CloseQuit
  | WgWait
  | SendUpdateNumWorkers
  | LaunchWorker nat
  | CloseWorkerQuit nat
  | WorkerWgWait
  | CloseSpeedMonitorQuit
  | WgDone

text \<open>The external collaborators, as the functions the miner calls.  \<open>ProcessBlock\<close> sees
  the blocks submitted so far, since the chain changes with every accepted block.
  \<open>BlockHashBig\<close> is \<open>HashToBig\<close> of \<open>header.BlockHash()\<close>.  \<open>SerializeAllHeaderBytes\<close>
  returns the bytes and whether it failed.  \<open>ReduceMinDifficulty\<close> and
  \<open>GenerateSupported\<close> are fields of the chain parameters.  \<open>defaultNumWorkers\<close> is
  \<open>uint32(chaincfg.CPUMinerThreads)\<close>, a constant of another package.\<close>

record env =
  ProcessBlock :: "msgblock list \<Rightarrow> msgblock \<Rightarrow> bool \<times> process_err option"
  ReduceMinDifficulty :: bool
  ExtractSolution :: "nat \<Rightarrow> byte list"
  BlockHashBig :: "blockheader \<Rightarrow> int"
  CompactToBig :: "uint32 \<Rightarrow> int"
  SerializeAllHeaderBytes :: "blockheader \<Rightarrow> byte list \<times> bool"
  ValidateEquihash :: "byte list \<Rightarrow> uint64 \<Rightarrow> byte list \<Rightarrow> bool"
  GenerateSupported :: bool
  defaultNumWorkers :: uint32

text \<open>The fields of \<open>CPUMiner\<close> that the modelled functions read or write.
  \<open>runningWorkers\<close> holds the identifiers of the workers whose \<open>quit\<close> channel is in the
  slice; \<open>miningStoppper\<close> holds, for each \<open>term\<close> channel (capacity 1), the number of
  values waiting in its buffer.  \<open>minedOnParents\<close> is a Go map: a missing key reads as 0.
  \<open>workerWg\<close> is the counter of the wait group of the workers.
  \<open>submitted\<close>, \<open>logged\<close>, \<open>hashReports\<close>, \<open>solverCalls\<close> and \<open>trace\<close> record the
  calls of \<open>ProcessBlock\<close>, of the logger, the sends on \<open>updateHashes\<close>, the header
  bytes and nonce of every call of \<open>SolveEquihash\<close>, and the channel operations, oldest
  first.\<close>

record miner =
  numWorkers :: uint32
  started :: bool
  discreteMining :: bool
  runningWorkers :: "nat list"
  miningStoppper :: "nat list"
  minedOnParents :: "hash \<rightharpoonup> 8 word"
  workerWg :: nat
  submitted :: "msgblock list"
  logged :: "log_entry list"
  hashReports :: "uint64 list"
  solverCalls :: "(byte list \<times> uint64) list"
  trace :: "event list"

section \<open>Block submission gate\<close>

text \<open>\<open>coinbaseTxGenerated\<close>: the \<open>int64\<close> sum of the coinbase outputs (wrapping).\<close>

definition coinbaseTxGenerated :: "txout list \<Rightarrow> uint64" where
  "coinbaseTxGenerated outs = foldl (\<lambda>acc out. acc + Value out) 0 outs"

text \<open>\<open>submitBlock\<close> (lines 141-188).  The locks are not modelled: the function runs
  alone.  Indexing \<open>Transactions[0]\<close> of an accepted block panics when the block has no
  transaction.\<close>

definition submitBlock :: "env \<Rightarrow> msgblock \<Rightarrow> miner \<Rightarrow> (panic + bool) \<times> miner" where
  "submitBlock e block m =
     (let (isOrphan, err) = ProcessBlock e (submitted m) block;
          m1 = m\<lparr>submitted := submitted m @ [block]\<rparr>
      in case err of
           Some InternalError \<Rightarrow> (Inr False, m1\<lparr>logged := logged m1 @ [LogUnexpected]\<rparr>)
         | Some (RuleError code) \<Rightarrow>
             if ReduceMinDifficulty e \<and> code = ErrHighHash
             then (Inr False, m1\<lparr>logged := logged m1 @ [LogReduceMinDifficulty]\<rparr>)
             else (Inr False, m1\<lparr>logged := logged m1 @ [LogRejected]\<rparr>)
         | None \<Rightarrow>
             if isOrphan
             then (Inr False, m1\<lparr>logged := logged m1 @ [LogOrphan (PrevBlock (Header block))]\<rparr>)
             else (case Transactions block of
                     [] \<Rightarrow> (Inl IndexOutOfRange, m1)
                   | coinbase # _ \<Rightarrow>
                       (Inr True,
                        m1\<lparr>logged := logged m1 @ [LogAccepted (coinbaseTxGenerated (TxOut coinbase))]\<rparr>)))"

section \<open>Miner supervisor\<close>

text \<open>The shutdown branch of \<open>miningWorkerController\<close> (lines 537-549): close the \<open>quit\<close>
  channel of every worker in \<open>runningWorkers\<close>, in slice order, leave the loop, wait for
  the worker wait group, close \<open>speedMonitorQuit\<close>, and report done.  This is the
  controller's own sequence of operations; the goroutines of the workers, which the wait
  waits for, are in the section on the pool as interleaved goroutines.\<close>

definition controllerShutdown :: "miner \<Rightarrow> miner" where
  "controllerShutdown m =
     m\<lparr>trace := trace m @ map CloseWorkerQuit (runningWorkers m)
                  @ [WorkerWgWait, CloseSpeedMonitorQuit, WgDone]\<rparr>"

text \<open>\<open>Stop\<close> (lines 582-596).  Closing \<open>m.quit\<close> makes the controller run its shutdown
  branch; \<open>m.wg.Wait()\<close> returns after the controller and the speed monitor are done.\<close>

definition Stop :: "miner \<Rightarrow> miner" where
  "Stop m =
     (if \<not> started m \<or> discreteMining m then m
      else (let m1 = controllerShutdown (m\<lparr>trace := trace m @ [CloseQuit]\<rparr>)
            in m1\<lparr>trace := trace m1 @ [WgWait], started := False\<rparr>))"

text \<open>\<open>SetNumWorkers\<close> (lines 631-653).  The argument is an \<open>int32\<close>; \<open>uint32(numWorkers)\<close>
  keeps its bits.  The send on \<open>updateNumWorkers\<close> is recorded in the trace.\<close>

definition SetNumWorkers :: "env \<Rightarrow> int32 \<Rightarrow> miner \<Rightarrow> miner" where
  "SetNumWorkers e n m =
     (let m1 = (if n = 0 then Stop m else m);
          m2 = (if sint n < 0 then m1\<lparr>numWorkers := defaultNumWorkers e\<rparr>
                else m1\<lparr>numWorkers := n\<rparr>)
      in if started m2 then m2\<lparr>trace := trace m2 @ [SendUpdateNumWorkers]\<rparr> else m2)"

text \<open>\<open>NumWorkers\<close> (lines 658-663): \<open>int32(m.numWorkers)\<close>.\<close>

definition NumWorkers :: "miner \<Rightarrow> int32" where
  "NumWorkers m = numWorkers m"

text \<open>\<open>IsMining\<close> (lines 602-607).\<close>

definition IsMining :: "miner \<Rightarrow> bool" where
  "IsMining m = started m"

section \<open>Search session\<close>

text \<open>\<open>callbackData\<close> (lines 190-205).  \<open>quit\<close> and \<open>term\<close> are channels: \<open>None\<close> is the
  nil channel that \<open>GenerateNBlocks\<close> passes, \<open>Some j\<close> the channel of slot \<open>j\<close> of
  \<open>miningStoppper\<close> (for \<open>term\<close>) or of the worker with that identifier (for \<open>quit\<close>).
  The fields \<open>n\<close> and \<open>k\<close> are constants of the chain and part of the external
  functions; \<open>miner\<close> is passed beside the record; the ticker is read through the
  select.\<close>

record callbackData =
  tid :: uint32
  solved :: bool
  exiting :: bool
  msgBlock :: msgblock
  headerBytes :: "byte list"
  quit_chan :: "nat option"
  term_chan :: "nat option"
  hashesCompleted :: uint64
  lastGenerated :: time
  lastTxUpdate :: time

text \<open>Which case a non-blocking \<open>select\<close> takes depends on the other goroutines, on the
  runtime's ticker and, when several channels are ready, on Go's random choice: it is an
  input of the call.\<close>

datatype select_case = CaseTerm | CaseQuit | CaseTicker | CaseDefault

text \<open>What one pass through a \<open>select\<close> and \<open>updateBlockTime\<close> reads from outside: the
  case taken, the two values of \<open>m.txSource.LastUpdated()\<close> (lines 279 and 286), the two
  values of \<open>time.Now()\<close> (lines 280 and 281), and what \<open>UpdateBlockTime\<close> does to the
  block (the new block and whether it failed).\<close>

record readings =
  selected :: select_case
  txUpdated1 :: time
  now3 :: time
  now60 :: time
  txUpdated2 :: time
  UpdateBlockTime :: "msgblock \<Rightarrow> msgblock \<times> bool"

definition second :: int where
  "second = 1000000000"

definition maxNonce :: uint32 where
  "maxNonce = NOT 0"

definition maxExtraNonce :: uint64 where
  "maxExtraNonce = NOT 0"

definition IsExiting :: "callbackData \<Rightarrow> bool" where
  "IsExiting d = (solved d \<or> exiting d)"

text \<open>Go's \<open>copy(dst, src)\<close> on a destination of fixed length.\<close>

definition go_copy :: "'a list \<Rightarrow> 'a list \<Rightarrow> 'a list" where
  "go_copy dst src = take (length dst) src @ drop (length src) dst"

text \<open>\<open>littleEndian.PutUint64(b, v)\<close>: panics on a slice shorter than 8 bytes.\<close>

definition PutUint64 :: "byte list \<Rightarrow> uint64 \<Rightarrow> panic + byte list" where
  "PutUint64 b v =
     (if length b < 8 then Inl IndexOutOfRange
      else Inr (map (\<lambda>j. ucast (drop_bit (8 * j) v)) [0..<8] @ drop 8 b))"

text \<open>A receive from the worker's \<open>term\<close> channel takes the value out of its buffer.\<close>

definition recvTerm :: "callbackData \<Rightarrow> miner \<Rightarrow> miner" where
  "recvTerm d m =
     (case term_chan d of
        None \<Rightarrow> m
      | Some j \<Rightarrow> m\<lparr>miningStoppper := (miningStoppper m)[j := miningStoppper m ! j - 1]\<rparr>)"

text \<open>The non-blocking send of \<open>notifyBlockDone\<close> on a channel of capacity 1.\<close>

definition trySend :: "nat \<Rightarrow> nat" where
  "trySend buf = (if buf < 1 then buf + 1 else buf)"

text \<open>The loop of \<open>notifyBlockDone\<close> (lines 669-679), from index \<open>i\<close> on.\<close>

fun notifyFrom :: "uint32 \<Rightarrow> nat \<Rightarrow> nat list \<Rightarrow> nat list" where
  "notifyFrom ownTid i [] = []"
| "notifyFrom ownTid i (c # cs) =
     (if (of_nat i + 1 :: uint32) = ownTid then c else trySend c) # notifyFrom ownTid (Suc i) cs"

definition notifyBlockDone :: "uint32 \<Rightarrow> miner \<Rightarrow> miner" where
  "notifyBlockDone ownTid m = m\<lparr>miningStoppper := notifyFrom ownTid 0 (miningStoppper m)\<rparr>"

text \<open>\<open>data.miner.minedOnParents[h]++\<close> on a Go map of \<open>uint8\<close>.\<close>

definition incMined :: "hash \<Rightarrow> miner \<Rightarrow> miner" where
  "incMined h m =
     m\<lparr>minedOnParents := (minedOnParents m)(h \<mapsto> (case minedOnParents m h of None \<Rightarrow> 0 | Some c \<Rightarrow> c) + 1)\<rparr>"

text \<open>\<open>updateBlockTime\<close> (lines 270-306).\<close>

definition updateBlockTime :: "env \<Rightarrow> readings \<Rightarrow> callbackData \<Rightarrow> miner \<Rightarrow> bool \<times> callbackData \<times> miner" where
  "updateBlockTime e r d m =
     (let m1 = m\<lparr>hashReports := hashReports m @ [hashesCompleted d]\<rparr>;
          d1 = d\<lparr>hashesCompleted := 0\<rparr>
      in if (lastTxUpdate d1 \<noteq> txUpdated1 r \<and> now3 r > lastGenerated d1 + 3 * second)
            \<or> now60 r > lastGenerated d1 + 60 * second
         then (False, d1, m1)
         else (let d2 = d1\<lparr>lastTxUpdate := txUpdated2 r\<rparr>;
                   (blk, err) = UpdateBlockTime r (msgBlock d2);
                   d3 = d2\<lparr>msgBlock := blk\<rparr>
               in if err then (False, d3, m1)
                  else (let (bytes, serr) = SerializeAllHeaderBytes e (Header (msgBlock d3));
                            d4 = d3\<lparr>headerBytes := bytes\<rparr>
                        in if serr then (False, d4, m1) else (True, d4, m1))))"

text \<open>\<open>validate\<close> (lines 219-268).  The solution pointer is a number, 0 the null
  pointer.  The result is the return code with the new session and miner, or the panic
  of \<open>submitBlock\<close>.\<close>

definition validate :: "env \<Rightarrow> readings \<Rightarrow> nat \<Rightarrow> callbackData \<Rightarrow> miner \<Rightarrow> panic + (int \<times> callbackData \<times> miner)" where
  "validate e r solution d m =
     (if exiting d then Inr (2, d, m)
      else if solution = 0 then
        (case selected r of
           CaseTerm \<Rightarrow> Inr (2, d\<lparr>exiting := True, solved := False\<rparr>, recvTerm d m)
         | CaseQuit \<Rightarrow> Inr (2, d\<lparr>exiting := True, solved := False\<rparr>, m)
         | CaseTicker \<Rightarrow>
             (case updateBlockTime e r d m of
                (ok, d', m') \<Rightarrow> if \<not> ok then Inr (2, d', m') else Inr (0, d', m'))
         | CaseDefault \<Rightarrow> Inr (0, d, m))
      else
        (let header = Header (msgBlock d);
             bytes = ExtractSolution e solution;
             header1 = header\<lparr>EquihashSolution := go_copy (EquihashSolution header) bytes\<rparr>;
             d1 = d\<lparr>msgBlock := (msgBlock d)\<lparr>Header := header1\<rparr>\<rparr>
         in if BlockHashBig e header1 \<le> CompactToBig e (Bits header1) then
              (let d2 = d1\<lparr>headerBytes := fst (SerializeAllHeaderBytes e header1)\<rparr>;
                   rc = ValidateEquihash e (headerBytes d2) (ucast (Nonce header1)) (EquihashSolution header1);
                   d3 = d2\<lparr>solved := rc\<rparr>
               in if rc then
                    (case submitBlock e (msgBlock d3) m of
                       (Inl p, m1) \<Rightarrow> Inl p
                     | (Inr accepted, m1) \<Rightarrow>
                         Inr (1, d3, notifyBlockDone (tid d3) (incMined (PrevBlock (Header (msgBlock d3))) m1)))
                  else Inr (0, d3, m))
            else Inr (0, d1, m)))"

text \<open>Names for the three values \<open>validate\<close> computes for a candidate (lines 247-255):
  the header with the proof bytes copied in, the comparison of its hash with the target,
  and the answer of the verifier on the re-serialized header.\<close>

definition candidateHeader :: "env \<Rightarrow> nat \<Rightarrow> callbackData \<Rightarrow> blockheader" where
  "candidateHeader e solution d =
     (Header (msgBlock d))\<lparr>EquihashSolution :=
        go_copy (EquihashSolution (Header (msgBlock d))) (ExtractSolution e solution)\<rparr>"

definition meetsTarget :: "env \<Rightarrow> blockheader \<Rightarrow> bool" where
  "meetsTarget e h = (BlockHashBig e h \<le> CompactToBig e (Bits h))"


text \<open>Modelled from the spec: the proof-of-work evaluator \<open>equihash.SolveEquihash\<close> (package
  cequihash, not part of these sources) repeatedly invokes \<open>validate\<close> until a non-zero
  code is returned.  What it would deliver, null probes and candidates, and what each call
  of \<open>validate\<close> reads, is a list; the evaluator returns when the list is used up or a call
  answers non-zero.\<close>

fun SolveEquihash :: "env \<Rightarrow> (readings \<times> nat) list \<Rightarrow> callbackData \<Rightarrow> miner \<Rightarrow> panic + (callbackData \<times> miner)" where
  "SolveEquihash e [] d m = Inr (d, m)"
| "SolveEquihash e ((r, solution) # ps) d m =
     (case validate e r solution d m of
        Inl p \<Rightarrow> Inl p
      | Inr (rc, d', m') \<Rightarrow> if rc = 0 then SolveEquihash e ps d' m' else Inr (d', m'))"

text \<open>One pass through the body of the inner loop of \<open>solveBlock\<close> reads the select of
  line 370 and lets the evaluator make its calls.\<close>

record iteration =
  sel :: readings
  probes :: "(readings \<times> nat) list"

text \<open>Where the nested loops of \<open>solveBlock\<close> stand: at the test of the outer loop with a
  value of \<open>extraNonce\<close>, or at the test of the inner loop with \<open>extraNonce\<close> and \<open>i\<close>.\<close>

datatype loc = Outer uint64 | Inner uint64 uint32

text \<open>How a run of \<open>solveBlock\<close> over a list of iterations ends: it returned, it panicked,
  or the list ended at the test of the inner loop with the loop still going.\<close>

datatype run =
    Returned bool callbackData miner
  | Crashed panic
  | Searching uint64 uint32 callbackData miner

text \<open>The header update at the head of the outer loop (lines 361-364).\<close>

definition setExtraNonce :: "env \<Rightarrow> uint64 \<Rightarrow> callbackData \<Rightarrow> panic + callbackData" where
  "setExtraNonce e v d =
     (case PutUint64 (ExtraData (Header (msgBlock d))) v of
        Inl p \<Rightarrow> Inl p
      | Inr xd \<Rightarrow>
          (let header1 = (Header (msgBlock d))\<lparr>ExtraData := xd\<rparr>
           in Inr (d\<lparr>msgBlock := (msgBlock d)\<lparr>Header := header1\<rparr>,
                     headerBytes := fst (SerializeAllHeaderBytes e header1)\<rparr>)))"

text \<open>The lines after the select (389-393): set the nonce, call the evaluator, count.\<close>

definition searchNonce :: "env \<Rightarrow> (readings \<times> nat) list \<Rightarrow> uint32 \<Rightarrow> callbackData \<Rightarrow> miner \<Rightarrow> panic + (callbackData \<times> miner)" where
  "searchNonce e ps i d m =
     (let d1 = d\<lparr>msgBlock := (msgBlock d)\<lparr>Header := (Header (msgBlock d))\<lparr>Nonce := i\<rparr>\<rparr>\<rparr>;
          m1 = m\<lparr>solverCalls := solverCalls m @ [(headerBytes d1, ucast i)]\<rparr>
      in case SolveEquihash e ps d1 m1 of
           Inl p \<Rightarrow> Inl p
         | Inr (d2, m2) \<Rightarrow> Inr (d2\<lparr>hashesCompleted := hashesCompleted d2 + 1\<rparr>, m2))"

text \<open>The select of the inner loop (lines 370-387): \<open>Inl\<close> is the early \<open>return false\<close>.\<close>

definition loopSelect :: "env \<Rightarrow> readings \<Rightarrow> callbackData \<Rightarrow> miner \<Rightarrow> (callbackData \<times> miner) + (callbackData \<times> miner)" where
  "loopSelect e r d m =
     (case selected r of
        CaseTerm \<Rightarrow> Inl (d\<lparr>exiting := True, solved := False\<rparr>, recvTerm d m)
      | CaseQuit \<Rightarrow> Inl (d\<lparr>exiting := True, solved := False\<rparr>, m)
      | CaseTicker \<Rightarrow>
          (case updateBlockTime e r d m of
             (ok, d', m') \<Rightarrow> if \<not> ok then Inl (d', m') else Inr (d', m'))
      | CaseDefault \<Rightarrow> Inr (d, m))"

text \<open>The nested loops of \<open>solveBlock\<close> (lines 358-397), with the counters as the unsigned
  words the source declares.\<close>

function solveLoop :: "env \<Rightarrow> uint64 \<Rightarrow> iteration list \<Rightarrow> loc \<Rightarrow> callbackData \<Rightarrow> miner \<Rightarrow> run" where
  "solveLoop e enOffset its (Outer extraNonce) d m =
     (if extraNonce < maxExtraNonce \<and> \<not> IsExiting d then
        (case setExtraNonce e (extraNonce + enOffset) d of
           Inl p \<Rightarrow> Crashed p
         | Inr d1 \<Rightarrow> solveLoop e enOffset its (Inner extraNonce 0) d1 m)
      else Returned (solved d) d m)"
| "solveLoop e enOffset [] (Inner extraNonce i) d m =
     (if i \<le> maxNonce \<and> \<not> IsExiting d then Searching extraNonce i d m
      else solveLoop e enOffset [] (Outer (extraNonce + 1)) d m)"
| "solveLoop e enOffset (it # its) (Inner extraNonce i) d m =
     (if i \<le> maxNonce \<and> \<not> IsExiting d then
        (case loopSelect e (sel it) d m of
           Inl (d', m') \<Rightarrow> Returned False d' m'
         | Inr (d', m') \<Rightarrow>
             (case searchNonce e (probes it) i d' m' of
                Inl p \<Rightarrow> Crashed p
              | Inr (d2, m2) \<Rightarrow> solveLoop e enOffset its (Inner extraNonce (i + 1)) d2 m2))
      else solveLoop e enOffset (it # its) (Outer (extraNonce + 1)) d m)"
  by pat_completeness auto
termination
proof (relation "measures [\<lambda>(e, off, its, l, d, m). length its,
     \<lambda>(e, off, its, l, d, m). (case l of Outer _ \<Rightarrow> (if IsExiting d then 0 else 3)
                                   | Inner _ _ \<Rightarrow> (if IsExiting d then 1 else 2))]", goal_cases)
  case 1
  show ?case by simp
next
  case 2
  then show ?case
    by (auto simp: setExtraNonce_def IsExiting_def Let_def split: sum.splits)
next
  case 3
  then show ?case by (simp add: maxNonce_def)
next
  case 4
  then show ?case by simp
next
  case 5
  then show ?case by (simp add: maxNonce_def)
qed

text \<open>What a call of \<open>solveBlock\<close> reads at its start (lines 325-349): the result of
  \<open>wire.RandomUint64\<close> (\<open>None\<close> when it fails), \<open>time.Now()\<close> and
  \<open>m.txSource.LastUpdated()\<close>; and the iterations of its loop.\<close>

record session_input =
  randomOffset :: "uint64 option"
  startNow :: time
  startTxUpdated :: time
  iterations :: "iteration list"

text \<open>\<open>solveBlock\<close> (lines 317-398).\<close>

definition solveBlock :: "env \<Rightarrow> session_input \<Rightarrow> msgblock \<Rightarrow> nat option \<Rightarrow> nat option \<Rightarrow> uint32 \<Rightarrow> miner \<Rightarrow> run" where
  "solveBlock e inp blk quit_ch term_ch worker_id m =
     (let enOffset = (case randomOffset inp of None \<Rightarrow> 0 | Some v \<Rightarrow> v);
          d = \<lparr>tid = worker_id, solved = False, exiting = False, msgBlock = blk, headerBytes = [],
               quit_chan = quit_ch, term_chan = term_ch, hashesCompleted = 0,
               lastGenerated = startNow inp, lastTxUpdate = startTxUpdated inp\<rparr>
      in solveLoop e enOffset (iterations inp) (Outer 0) d m)"

section \<open>Discrete generation\<close>

text \<open>What \<open>NewBlockTemplate\<close> answers: an error, nil, or a template with its block.\<close>

datatype template = TemplateErr | TemplateNil | Template msgblock

record attempt =
  templ :: template
  session :: session_input

datatype gen_result =
    GenErrUnsupported
  | GenErrAlreadyMining
  | Generated "int list" miner
  | GenCrashed panic
  | GenRunning uint32 "int list" miner

text \<open>The loop of \<open>GenerateNBlocks\<close> (lines 724-780), one element of the list for each
  pass.  \<open>blockHashes\<close> holds the hashes as the integers \<open>BlockHashBig\<close> gives.  The block
  of the template is shared with \<open>solveBlock\<close>, which changes it in place: after the call
  it is the block of the session.  The non-blocking receive from \<open>updateNumWorkers\<close> at
  the head of the loop changes nothing of the miner and is left out.\<close>

fun generateLoop :: "env \<Rightarrow> uint32 \<Rightarrow> attempt list \<Rightarrow> uint32 \<Rightarrow> int list \<Rightarrow> miner \<Rightarrow> gen_result" where
  "generateLoop e n [] i blockHashes m = GenRunning i blockHashes m"
| "generateLoop e n (a # as) i blockHashes m =
     (case templ a of
        TemplateErr \<Rightarrow> generateLoop e n as i blockHashes m
      | TemplateNil \<Rightarrow> generateLoop e n as i blockHashes m
      | Template blk \<Rightarrow>
          (case solveBlock e (session a) blk None None 1 m of
             Crashed p \<Rightarrow> GenCrashed p
           | Searching extraNonce j d' m' \<Rightarrow> GenRunning i blockHashes m'
           | Returned ok d' m' \<Rightarrow>
               if ok then
                 (case submitBlock e (msgBlock d') m' of
                    (Inl p, m2) \<Rightarrow> GenCrashed p
                  | (Inr accepted, m2) \<Rightarrow>
                      if unat i < length blockHashes then
                        (let hs = blockHashes[unat i := BlockHashBig e (Header (msgBlock d'))];
                             i1 = i + 1
                         in if i1 = n
                            then Generated hs
                                   (m2\<lparr>trace := trace m2 @ [CloseSpeedMonitorQuit, WgWait],
                                       started := False, discreteMining := False\<rparr>)
                            else generateLoop e n as i1 hs m2)
                      else GenCrashed IndexOutOfRange)
               else generateLoop e n as i blockHashes m'))"

text \<open>\<open>GenerateNBlocks\<close> (lines 687-781).\<close>

definition GenerateNBlocks :: "env \<Rightarrow> uint32 \<Rightarrow> attempt list \<Rightarrow> miner \<Rightarrow> gen_result" where
  "GenerateNBlocks e n as m =
     (if \<not> GenerateSupported e then GenErrUnsupported
      else if started m \<or> discreteMining m then GenErrAlreadyMining
      else generateLoop e n as 0 (replicate (unat n) 0) (m\<lparr>started := True, discreteMining := True\<rparr>))"

section \<open>Worker pool controller\<close>

text \<open>\<open>launchWorkers\<close> (lines 498-507): the new worker gets the identifier
  \<open>len(m.miningStoppper)\<close> after its \<open>term\<close> channel, with an empty buffer, was appended;
  the wait group is incremented and the goroutine started.\<close>

fun launchWorkers :: "nat \<Rightarrow> miner \<Rightarrow> miner" where
  "launchWorkers 0 m = m"
| "launchWorkers (Suc k) m =
     launchWorkers k
       (m\<lparr>runningWorkers := runningWorkers m @ [Suc (length (miningStoppper m))],
          miningStoppper := miningStoppper m @ [0],
          workerWg := Suc (workerWg m),
          trace := trace m @ [LaunchWorker (Suc (length (miningStoppper m)))]\<rparr>)"

text \<open>The loop that retires workers (lines 531-535), with its counter \<open>i\<close> as the
  \<open>uint32\<close> it is: \<open>i--\<close> wraps below 0, and indexing the slice beyond its length
  panics.\<close>

function retireLoop :: "uint32 \<Rightarrow> miner \<Rightarrow> panic + miner" where
  "retireLoop i m =
     (if i \<ge> numWorkers m then
        (if unat i < length (runningWorkers m) then
           retireLoop (i - 1)
             (m\<lparr>trace := trace m @ [CloseWorkerQuit (runningWorkers m ! unat i)],
                runningWorkers := take (unat i) (runningWorkers m)\<rparr>)
         else Inl IndexOutOfRange)
      else Inr m)"
  by pat_completeness auto
termination
  by (relation "measure (\<lambda>(i, m). length (runningWorkers m))") auto

declare retireLoop.simps [simp del]

text \<open>The branch of the controller for a signal on \<open>updateNumWorkers\<close> (lines 517-535).\<close>

definition controllerResize :: "miner \<Rightarrow> panic + miner" where
  "controllerResize m =
     (let numRunning = (of_nat (length (runningWorkers m)) :: uint32)
      in if numWorkers m = numRunning then Inr m
         else if numWorkers m > numRunning
              then Inr (launchWorkers (unat (numWorkers m - numRunning)) m)
              else retireLoop (numRunning - 1) m)"

text \<open>The start of the controller (lines 510-511).\<close>

definition controllerStart :: "miner \<Rightarrow> miner" where
  "controllerStart m = launchWorkers (unat (numWorkers m)) (m\<lparr>runningWorkers := []\<rparr>)"

section \<open>Concrete inputs\<close>

text \<open>A header, a block with a coinbase of two outputs, collaborators that accept every
  block and every candidate, a running pool with three workers and a target of two, and
  a miner in discrete mode as \<open>GenerateNBlocks\<close> leaves it while it runs.\<close>

definition header0 :: blockheader where
  "header0 = \<lparr>PrevBlock = 7, Bits = 1, Timestamp = 0, Nonce = 0,
              ExtraData = replicate 32 0, EquihashSolution = replicate 4 0\<rparr>"

definition block0 :: msgblock where
  "block0 = \<lparr>Header = header0, Transactions = [\<lparr>TxOut = [\<lparr>Value = 5\<rparr>, \<lparr>Value = 6\<rparr>]\<rparr>]\<rparr>"

definition env0 :: env where
  "env0 = \<lparr>ProcessBlock = (\<lambda>hist b. (False, None)),
           ReduceMinDifficulty = False,
           ExtractSolution = (\<lambda>p. [1, 2, 3]),
           BlockHashBig = (\<lambda>h. 5),
           CompactToBig = (\<lambda>b. 10),
           SerializeAllHeaderBytes = (\<lambda>h. ([9], False)),
           ValidateEquihash = (\<lambda>hb nonce sol. True),
           GenerateSupported = True,
           defaultNumWorkers = 1\<rparr>"

definition miner0 :: miner where
  "miner0 = \<lparr>numWorkers = 2, started = True, discreteMining = False,
             runningWorkers = [1, 2, 3], miningStoppper = [0, 1, 0],
             minedOnParents = Map.empty, workerWg = 3, submitted = [], logged = [],
             hashReports = [], solverCalls = [], trace = []\<rparr>"

definition minerDiscrete :: miner where
  "minerDiscrete = \<lparr>numWorkers = 1, started = True, discreteMining = True,
             runningWorkers = [], miningStoppper = [],
             minedOnParents = Map.empty, workerWg = 0, submitted = [], logged = [],
             hashReports = [], solverCalls = [], trace = []\<rparr>"

definition data0 :: callbackData where
  "data0 = \<lparr>tid = 1, solved = False, exiting = False, msgBlock = block0, headerBytes = [8],
            quit_chan = Some 1, term_chan = Some 0, hashesCompleted = 3,
            lastGenerated = 0, lastTxUpdate = 0\<rparr>"

text \<open>Readings: nothing is ready; the ticker fired 61 seconds after the template was
  made.\<close>

definition quiet :: readings where
  "quiet = \<lparr>selected = CaseDefault, txUpdated1 = 0, now3 = 0, now60 = 0, txUpdated2 = 0,
            UpdateBlockTime = (\<lambda>b. (b, False))\<rparr>"

definition staleTick :: readings where
  "staleTick = \<lparr>selected = CaseTicker, txUpdated1 = 0, now3 = 61 * second, now60 = 61 * second,
            txUpdated2 = 0, UpdateBlockTime = (\<lambda>b. (b, False))\<rparr>"

text \<open>Two timer fires that both read the stamp 5 of the transaction source, 1 second
  and 4 seconds after time 0; and the start of a session at time 0 with the stamp 0,
  whose first two iterations meet these timer fires and no candidate.\<close>

definition earlyTick :: readings where
  "earlyTick = \<lparr>selected = CaseTicker, txUpdated1 = 5, now3 = 1 * second, now60 = 1 * second,
            txUpdated2 = 5, UpdateBlockTime = (\<lambda>b. (b, False))\<rparr>"

definition lateTick :: readings where
  "lateTick = \<lparr>selected = CaseTicker, txUpdated1 = 5, now3 = 4 * second, now60 = 4 * second,
            txUpdated2 = 5, UpdateBlockTime = (\<lambda>b. (b, False))\<rparr>"

definition refreshedSession :: session_input where
  "refreshedSession = \<lparr>randomOffset = Some 0, startNow = 0, startTxUpdated = 0,
            iterations = [\<lparr>sel = earlyTick, probes = []\<rparr>, \<lparr>sel = lateTick, probes = []\<rparr>]\<rparr>"

text \<open>Collaborators whose verifier rejects every candidate.\<close>

definition envReject :: env where
  "envReject = env0\<lparr>ValidateEquihash := (\<lambda>hb nonce sol. False)\<rparr>"

text \<open>A miner that is not running; an iteration in which nothing is ready and the
  evaluator delivers one candidate; a pass of \<open>GenerateNBlocks\<close> with a template and that
  iteration; an iteration in which nothing is ready and the evaluator delivers nothing.\<close>

definition minerIdle :: miner where
  "minerIdle = \<lparr>numWorkers = 1, started = False, discreteMining = False,
             runningWorkers = [], miningStoppper = [],
             minedOnParents = Map.empty, workerWg = 0, submitted = [], logged = [],
             hashReports = [], solverCalls = [], trace = []\<rparr>"

definition solvingIteration :: iteration where
  "solvingIteration = \<lparr>sel = quiet, probes = [(quiet, 5)]\<rparr>"

definition attempt0 :: attempt where
  "attempt0 = \<lparr>templ = Template block0,
               session = \<lparr>randomOffset = Some 0, startNow = 0, startTxUpdated = 0,
                          iterations = [solvingIteration]\<rparr>\<rparr>"

definition quietIteration :: iteration where
  "quietIteration = \<lparr>sel = quiet, probes = []\<rparr>"

text \<open>An iteration without a terminal condition: the select falls through and the
  evaluator returns without a call of the validator.\<close>

definition isQuiet :: "iteration \<Rightarrow> bool" where
  "isQuiet it = (selected (sel it) = CaseDefault \<and> probes it = [])"

text \<open>The submissions of one run of \<open>solveBlock\<close>, started with miner \<open>m\<close>: one, of the
  session's block, when it returns true; none when it returns false or is still
  searching.\<close>

definition sessionSubmits :: "miner \<Rightarrow> run \<Rightarrow> bool" where
  "sessionSubmits m res =
     (case res of
        Returned b d' m' \<Rightarrow> submitted m' = submitted m @ (if b then [msgBlock d'] else [])
      | Crashed p \<Rightarrow> True
      | Searching en i d' m' \<Rightarrow> submitted m' = submitted m)"

section \<open>The pool as interleaved goroutines\<close>

text \<open>The controller and the workers are goroutines that run interleaved.  The state of
  the pool is the miner, the place of the controller in its code, and the workers whose
  goroutine has called \<open>m.workerWg.Done()\<close> (line 485).  \<open>lateReports\<close> counts the sends
  on \<open>updateHashes\<close> made after \<open>speedMonitorQuit\<close> was closed.\<close>

datatype ctrl_pc = CtrlLoop | CtrlClosing "nat list" | CtrlDone

record pool =
  pm :: miner
  ctrl :: ctrl_pc
  exited :: "nat list"
  lateReports :: nat

text \<open>The workers that \<open>launchWorkers\<close> started, in the order of their start.\<close>

fun launched :: "event list \<Rightarrow> nat list" where
  "launched [] = []"
| "launched (LaunchWorker w # es) = w # launched es"
| "launched (ev # es) = launched es"

definition alive :: "nat \<Rightarrow> pool \<Rightarrow> bool" where
  "alive w s = (w \<in> set (launched (trace (pm s))) \<and> w \<notin> set (exited s))"

definition monitorStopped :: "miner \<Rightarrow> bool" where
  "monitorStopped m = (CloseSpeedMonitorQuit \<in> set (trace m))"

text \<open>The steps of the goroutines:
  \<^item> \<open>ActStop\<close>: \<open>Stop\<close> closes \<open>m.quit\<close> (line 592), once;
  \<^item> \<open>ActResize n\<close>: the configured count is \<open>n\<close> and the controller, in its loop, runs
    the resize branch (lines 517-535); a panic ends the process;
  \<^item> \<open>ActRecvQuit\<close>: the controller, in its loop, receives from the closed \<open>m.quit\<close>
    (line 537) and starts to range over \<open>runningWorkers\<close>;
  \<^item> \<open>ActCloseNext\<close>: one pass of that range loop closes the next \<open>quit\<close> channel
    (line 539);
  \<^item> \<open>ActWaitReturns\<close>: the range loop is over and \<open>m.workerWg.Wait()\<close> returns, which it
    does only when the counter is 0; the controller closes \<open>speedMonitorQuit\<close> and is
    done (lines 547-549);
  \<^item> \<open>ActReport w v\<close>: worker \<open>w\<close>, which has not called \<open>Done\<close>, sends \<open>v\<close> on
    \<open>updateHashes\<close> (line 272);
  \<^item> \<open>ActExit w\<close>: worker \<open>w\<close> finds its \<open>quit\<close> channel closed, leaves its loop, the
    only way out of it (lines 418-421), and calls \<open>m.workerWg.Done()\<close> (line 485).
  A step that cannot be taken in a state is \<open>None\<close>.\<close>

datatype action =
    ActStop
  | ActResize uint32
  | ActRecvQuit
  | ActCloseNext
  | ActWaitReturns
  | ActReport nat uint64
  | ActExit nat

fun poolStep :: "action \<Rightarrow> pool \<Rightarrow> pool option" where
  "poolStep ActStop s =
     (if CloseQuit \<in> set (trace (pm s)) then None
      else Some (s\<lparr>pm := (pm s)\<lparr>trace := trace (pm s) @ [CloseQuit]\<rparr>\<rparr>))"
| "poolStep (ActResize n) s =
     (if ctrl s = CtrlLoop then
        (case controllerResize ((pm s)\<lparr>numWorkers := n\<rparr>) of
           Inl p \<Rightarrow> None
         | Inr m' \<Rightarrow> Some (s\<lparr>pm := m'\<rparr>))
      else None)"
| "poolStep ActRecvQuit s =
     (if ctrl s = CtrlLoop \<and> CloseQuit \<in> set (trace (pm s))
      then Some (s\<lparr>ctrl := CtrlClosing (runningWorkers (pm s))\<rparr>)
      else None)"
| "poolStep ActCloseNext s =
     (case ctrl s of
        CtrlClosing (q # qs) \<Rightarrow>
          Some (s\<lparr>pm := (pm s)\<lparr>trace := trace (pm s) @ [CloseWorkerQuit q]\<rparr>,
                  ctrl := CtrlClosing qs\<rparr>)
      | _ \<Rightarrow> None)"
| "poolStep ActWaitReturns s =
     (if ctrl s = CtrlClosing [] \<and> workerWg (pm s) = 0
      then Some (s\<lparr>pm := (pm s)\<lparr>trace := trace (pm s)
                                   @ [WorkerWgWait, CloseSpeedMonitorQuit, WgDone]\<rparr>,
                    ctrl := CtrlDone\<rparr>)
      else None)"
| "poolStep (ActReport w v) s =
     (if alive w s
      then Some (s\<lparr>pm := (pm s)\<lparr>hashReports := hashReports (pm s) @ [v]\<rparr>,
                    lateReports := lateReports s + (if monitorStopped (pm s) then 1 else 0)\<rparr>)
      else None)"
| "poolStep (ActExit w) s =
     (if alive w s \<and> CloseWorkerQuit w \<in> set (trace (pm s))
      then Some (s\<lparr>pm := (pm s)\<lparr>workerWg := workerWg (pm s) - 1\<rparr>,
                    exited := exited s @ [w]\<rparr>)
      else None)"

text \<open>A run: the steps of a list, one after the other.\<close>

fun poolRun :: "action list \<Rightarrow> pool \<Rightarrow> pool option" where
  "poolRun [] s = Some s"
| "poolRun (a # as) s = (case poolStep a s of None \<Rightarrow> None | Some s' \<Rightarrow> poolRun as s')"

text \<open>The pool after \<open>Start\<close> (lines 567-573) and the start of the controller.\<close>

definition poolStart :: "miner \<Rightarrow> pool" where
  "poolStart m = \<lparr>pm = controllerStart m, ctrl = CtrlLoop, exited = [], lateReports = 0\<rparr>"

text \<open>What holds in every state of a run.\<close>

definition poolInv :: "pool \<Rightarrow> bool" where
  "poolInv s =
     (distinct (launched (trace (pm s)))
      \<and> (\<forall>w \<in> set (launched (trace (pm s))). w \<le> length (miningStoppper (pm s)))
      \<and> distinct (exited s)
      \<and> set (exited s) \<subseteq> set (launched (trace (pm s)))
      \<and> (\<forall>w \<in> set (exited s). CloseWorkerQuit w \<in> set (trace (pm s)))
      \<and> workerWg (pm s) + length (exited s) = length (launched (trace (pm s)))
      \<and> (ctrl s = CtrlDone \<longrightarrow>
            workerWg (pm s) = 0
            \<and> (\<exists>pre. trace (pm s) = pre @ [WorkerWgWait, CloseSpeedMonitorQuit, WgDone]
                       \<and> CloseSpeedMonitorQuit \<notin> set pre))
      \<and> (ctrl s \<noteq> CtrlDone \<longrightarrow> CloseSpeedMonitorQuit \<notin> set (trace (pm s)))
      \<and> (ctrl s \<noteq> CtrlLoop \<longrightarrow> CloseQuit \<in> set (trace (pm s)))
      \<and> lateReports s = 0)"

section \<open>Verified properties\<close>

subsection \<open>Block submission gate\<close>

text \<open>Claim C8.  \<open>submitBlock\<close> answers with a boolean.  It answers false whenever the
  consensus processor returns an error (an unexpected one, the high-hash rule violation
  under reduced minimum difficulty, or any other rule violation) or reports an orphan;
  it answers true for a block that is accepted and connected, and only for such a block.
  The failure classes differ in the line they log and in nothing else of the miner.  The
  accepted block is one with a coinbase transaction, which every template has: the
  success path reads \<open>Transactions[0]\<close>.\<close>

theorem submitBlock_result:
  "(snd (ProcessBlock e (submitted m) block) \<noteq> None \<or> fst (ProcessBlock e (submitted m) block)
      \<longrightarrow> fst (submitBlock e block m) = Inr False)
   \<and> (snd (ProcessBlock e (submitted m) block) = None \<and> \<not> fst (ProcessBlock e (submitted m) block)
        \<and> Transactions block \<noteq> []
      \<longrightarrow> fst (submitBlock e block m) = Inr True)
   \<and> (fst (submitBlock e block m) = Inr True
      \<longrightarrow> snd (ProcessBlock e (submitted m) block) = None \<and> \<not> fst (ProcessBlock e (submitted m) block))
   \<and> (snd (submitBlock e block m))\<lparr>logged := logged m\<rparr> = m\<lparr>submitted := submitted m @ [block]\<rparr>"
  by (cases "ProcessBlock e (submitted m) block")
     (auto simp: submitBlock_def Let_def split: option.splits process_err.splits list.splits)

theorem submitBlock_result_witness:
  "snd (ProcessBlock env0 (submitted miner0) block0) = None
   \<and> \<not> fst (ProcessBlock env0 (submitted miner0) block0)
   \<and> Transactions block0 \<noteq> []
   \<and> fst (submitBlock env0 block0 miner0) = Inr True"
  using submitBlock_result [of env0 miner0 block0]
  by (simp add: env0_def miner0_def block0_def)

subsection \<open>Miner supervisor\<close>

text \<open>Claim C7, as the code has it.  \<open>SetNumWorkers n\<close> sets the configured count to the
  platform default for a negative \<open>n\<close> and to \<open>n\<close> otherwise (0 for \<open>n = 0\<close>).  For
  \<open>n = 0\<close> it calls \<open>Stop\<close> first, which stops a running pool and does nothing in
  discrete mode; so the miner is running afterwards exactly when it was running before
  and \<open>n\<close> is not 0 or the miner is in discrete mode.  The signal on
  \<open>updateNumWorkers\<close> is sent exactly when the miner is running afterwards.\<close>

theorem SetNumWorkers_effect:
  "numWorkers (SetNumWorkers e n m) = (if sint n < 0 then defaultNumWorkers e else n)
   \<and> started (SetNumWorkers e n m) = (started m \<and> (n = 0 \<longrightarrow> discreteMining m))
   \<and> trace (SetNumWorkers e n m) =
       trace (if n = 0 then Stop m else m)
       @ (if started (SetNumWorkers e n m) then [SendUpdateNumWorkers] else [])"
  by (auto simp: SetNumWorkers_def Stop_def Let_def controllerShutdown_def)

theorem SetNumWorkers_effect_witness:
  "started (SetNumWorkers env0 0 miner0) = False
   \<and> numWorkers (SetNumWorkers env0 0 miner0) = 0
   \<and> trace (SetNumWorkers env0 0 miner0) = trace (Stop miner0)"
  using SetNumWorkers_effect [of env0 0 miner0]
  by (simp add: miner0_def)

text \<open>The claim as the specification words it, that \<open>n = 0\<close> stops the miner entirely,
  fails in discrete mode: the miner is still mining after \<open>SetNumWorkers 0\<close>, and the
  signal is sent.\<close>

theorem SetNumWorkers_zero_discrete_counterexample:
  "IsMining (SetNumWorkers env0 0 minerDiscrete)
   \<and> trace (SetNumWorkers env0 0 minerDiscrete) = [SendUpdateNumWorkers]"
  by (simp add: SetNumWorkers_def Stop_def Let_def minerDiscrete_def IsMining_def)

subsection \<open>Staleness\<close>

text \<open>What \<open>updateBlockTime\<close> decides on a timer fire.  It answers false exactly when
  the transaction source's last-update time differs from the stamp the session holds and
  the clock is more than 3 seconds after the creation of the template, or the clock is
  more than 60 seconds after it, or the external time update fails, or the header cannot
  be serialized again.  The stamp the session holds is the one of the template's
  creation only until the first timer fire that is not stale: line 286 replaces it.\<close>

lemma updateBlockTime_verdict:
  "fst (updateBlockTime e r d m) = False \<longleftrightarrow>
      (lastTxUpdate d \<noteq> txUpdated1 r \<and> now3 r > lastGenerated d + 3 * second)
      \<or> now60 r > lastGenerated d + 60 * second
      \<or> snd (UpdateBlockTime r (msgBlock d))
      \<or> snd (SerializeAllHeaderBytes e (Header (fst (UpdateBlockTime r (msgBlock d)))))"
  by (auto simp: updateBlockTime_def Let_def split: prod.splits)

lemma updateBlockTime_refreshes_stamp:
  "fst (updateBlockTime e r d m) \<Longrightarrow>
   lastTxUpdate (fst (snd (updateBlockTime e r d m))) = txUpdated2 r
   \<and> lastGenerated (fst (snd (updateBlockTime e r d m))) = lastGenerated d"
  by (auto simp: updateBlockTime_def Let_def split: prod.splits if_splits)

text \<open>Claim C2 at the input where the code departs from it.  The template is made at
  time 0 with the transaction source's stamp 0.  The source is updated (stamp 5) within
  the first second.  The timer fires at 1 second: the template is not stale, and the
  session's stamp becomes 5.  The timer fires again at 4 seconds: the source's stamp, 5,
  differs from the one recorded at the creation of the template, 0, and more than 3
  seconds have passed since the creation, yet \<open>updateBlockTime\<close> answers true and
  \<open>solveBlock\<close> goes on searching.  Without the first timer fire the same second one
  ends the attempt.\<close>

theorem stale_stamp_refreshed:
  "txUpdated1 lateTick \<noteq> startTxUpdated refreshedSession
   \<and> now3 lateTick > startNow refreshedSession + 3 * second
   \<and> (case solveBlock env0 refreshedSession block0 (Some 1) (Some 0) 1 miner0 of
         Searching extraNonce i d' m' \<Rightarrow>
           extraNonce = 0 \<and> i = 2 \<and> lastTxUpdate d' = 5 \<and> lastGenerated d' = 0
           \<and> \<not> IsExiting d'
       | _ \<Rightarrow> False)
   \<and> (case solveBlock env0 (refreshedSession\<lparr>iterations := [\<lparr>sel = lateTick, probes = []\<rparr>]\<rparr>)
              block0 (Some 1) (Some 0) 1 miner0 of
         Returned ok d' m' \<Rightarrow> \<not> ok
       | _ \<Rightarrow> False)"
  by (simp add: solveBlock_def refreshedSession_def earlyTick_def lateTick_def second_def
        maxExtraNonce_def maxNonce_def word_gt_0 IsExiting_def setExtraNonce_def PutUint64_def
        block0_def header0_def env0_def loopSelect_def updateBlockTime_def searchNonce_def
        Let_def)

subsection \<open>Solution validator\<close>

text \<open>Claim C3 at the input where the code departs from it.  A null probe reaches a
  session that is not terminal, the ticker has fired and the template is stale (61
  seconds old).  The validator answers 2, but neither \<open>exiting\<close> nor \<open>solved\<close> is set:
  the session is not marked terminal, unlike in the branches for \<open>term\<close> and \<open>quit\<close>.\<close>

theorem validate_stale_probe_not_terminal:
  "validate env0 staleTick 0 data0 miner0
     = Inr (2, data0\<lparr>hashesCompleted := 0\<rparr>, miner0\<lparr>hashReports := [3]\<rparr>)
   \<and> \<not> IsExiting (data0\<lparr>hashesCompleted := 0\<rparr>)"
  by (simp add: validate_def updateBlockTime_def Let_def staleTick_def data0_def miner0_def
        second_def IsExiting_def)






text \<open>Claim C10.  For a candidate delivered to a session that is not exiting, the header
  of the session's block afterwards is the header with the proof bytes copied in, and
  the serialized header bytes are overwritten whenever its hash is at most the target,
  whatever the answer (0 or 1): a rejected candidate leaves both changes in place.\<close>

theorem validate_candidate_frame:
  assumes "\<not> exiting d" and "solution \<noteq> 0"
    and "validate e r solution d m = Inr (rc, d', m')"
  shows "Header (msgBlock d') = candidateHeader e solution d
     \<and> headerBytes d' = (if meetsTarget e (candidateHeader e solution d)
                          then fst (SerializeAllHeaderBytes e (candidateHeader e solution d))
                          else headerBytes d)
     \<and> (rc = 0 \<or> rc = 1)"
  using assms
  by (auto simp: validate_def Let_def candidateHeader_def meetsTarget_def
           split: if_splits prod.splits sum.splits)

theorem validate_candidate_frame_witness:
  "\<not> exiting data0 \<and> (5::nat) \<noteq> 0
   \<and> validate envReject quiet 5 data0 miner0
        = Inr (0, data0\<lparr>msgBlock := block0\<lparr>Header := candidateHeader envReject 5 data0\<rparr>,
                         headerBytes := [9]\<rparr>, miner0)
   \<and> EquihashSolution (candidateHeader envReject 5 data0) = [1, 2, 3, 0]
   \<and> EquihashSolution (Header (msgBlock data0)) = [0, 0, 0, 0]"
proof -
  have v: "validate envReject quiet 5 data0 miner0
        = Inr (0, data0\<lparr>msgBlock := block0\<lparr>Header := candidateHeader envReject 5 data0\<rparr>,
                         headerBytes := [9]\<rparr>, miner0)"
    by (simp add: validate_def Let_def envReject_def env0_def data0_def candidateHeader_def)
  have c: "EquihashSolution (candidateHeader envReject 5 data0) = [1, 2, 3, 0]"
    by (simp add: candidateHeader_def envReject_def env0_def data0_def block0_def header0_def
          go_copy_def numeral_eq_Suc)
  have o: "EquihashSolution (Header (msgBlock data0)) = [0, 0, 0, 0]"
    by (simp add: data0_def block0_def header0_def numeral_eq_Suc)
  have e: "\<not> exiting data0" by (simp add: data0_def)
  from validate_candidate_frame [OF e _ v] v c o e show ?thesis by simp
qed

subsection \<open>Search session and submissions\<close>

text \<open>Facts about the loop counters of \<open>solveBlock\<close>: the guard \<open>i <= maxNonce\<close> of the
  inner loop holds for every \<open>uint32\<close>.\<close>

lemma le_maxNonce: "i \<le> maxNonce"
  by (simp add: maxNonce_def)

lemma zero_less_maxExtraNonce: "0 < maxExtraNonce"
  by (simp add: maxExtraNonce_def word_gt_0)

text \<open>Every call of \<open>submitBlock\<close> is one submission; \<open>updateBlockTime\<close> makes none and
  keeps the flags of the session.\<close>

lemma submitBlock_submitted:
  "submitBlock e b m = (res, m1) \<Longrightarrow> submitted m1 = submitted m @ [b]"
  by (cases "ProcessBlock e (submitted m) b")
     (auto simp: submitBlock_def Let_def split: option.splits process_err.splits list.splits if_splits)

lemma updateBlockTime_flags:
  "updateBlockTime e r d m = (ok, d', m') \<Longrightarrow>
   solved d' = solved d \<and> exiting d' = exiting d \<and> submitted m' = submitted m"
  by (auto simp: updateBlockTime_def Let_def split: if_splits prod.splits)

text \<open>One call of the validator in a session that is not terminal: it submits the
  session's block and marks it solved exactly when it answers 1; an answer 0 leaves
  the session not exiting, so the evaluator's next call finds it so again.\<close>

lemma validate_session:
  assumes "validate e r s d m = Inr (rc, d', m')" and "\<not> IsExiting d"
  shows "(rc = 1 \<and> solved d' \<and> submitted m' = submitted m @ [msgBlock d'])
       \<or> (rc \<noteq> 1 \<and> \<not> solved d' \<and> submitted m' = submitted m \<and> (rc = 0 \<longrightarrow> \<not> exiting d'))"
proof (cases "s = 0")
  case True
  with assms show ?thesis
    by (auto simp: validate_def IsExiting_def recvTerm_def
             split: select_case.splits prod.splits if_splits option.splits
             dest: updateBlockTime_flags)
next
  case False
  with assms show ?thesis
    by (auto simp: validate_def IsExiting_def Let_def notifyBlockDone_def incMined_def
             split: if_splits prod.splits sum.splits
             dest: submitBlock_submitted)
qed

lemma SolveEquihash_session:
  "SolveEquihash e ps d m = Inr (d', m') \<Longrightarrow> \<not> IsExiting d \<Longrightarrow>
   (solved d' \<and> submitted m' = submitted m @ [msgBlock d'])
   \<or> (\<not> solved d' \<and> submitted m' = submitted m)"
proof (induction ps arbitrary: d m)
  case Nil
  then show ?case by (simp add: IsExiting_def)
next
  case (Cons p ps)
  obtain r s where p: "p = (r, s)" by (cases p)
  from Cons.prems(1) p obtain rc d1 m1 where
    v: "validate e r s d m = Inr (rc, d1, m1)"
    by (auto split: sum.splits)
  note vs = validate_session [OF v Cons.prems(2)]
  show ?case
  proof (cases "rc = 0")
    case True
    with Cons.prems(1) p v have rest: "SolveEquihash e ps d1 m1 = Inr (d', m')" by simp
    from vs True have "\<not> IsExiting d1" and "submitted m1 = submitted m"
      by (auto simp: IsExiting_def)
    with Cons.IH [OF rest] show ?thesis by simp
  next
    case False
    with Cons.prems(1) p v have "d' = d1" and "m' = m1" by simp_all
    with vs show ?thesis by auto
  qed
qed

lemma solveLoop_exiting:
  "IsExiting d \<Longrightarrow> solveLoop e off its l d m = Returned (solved d) d m"
proof (cases l)
  case (Outer en)
  assume "IsExiting d"
  then show ?thesis using Outer by simp
next
  case (Inner en i)
  assume "IsExiting d"
  then show ?thesis using Inner by (cases its) simp_all
qed

lemma loopSelect_session:
  "\<not> IsExiting d \<Longrightarrow>
   (loopSelect e r d m = Inl (d', m') \<longrightarrow> submitted m' = submitted m)
   \<and> (loopSelect e r d m = Inr (d', m') \<longrightarrow> submitted m' = submitted m \<and> \<not> IsExiting d')"
  by (auto simp: loopSelect_def IsExiting_def recvTerm_def
           split: select_case.splits prod.splits if_splits option.splits
           dest: updateBlockTime_flags)

lemma searchNonce_session:
  "searchNonce e ps i d m = Inr (d', m') \<Longrightarrow> \<not> IsExiting d \<Longrightarrow>
   (solved d' \<and> submitted m' = submitted m @ [msgBlock d'])
   \<or> (\<not> solved d' \<and> submitted m' = submitted m)"
  by (auto simp: searchNonce_def Let_def IsExiting_def split: sum.splits prod.splits
           dest!: SolveEquihash_session)

lemma solveLoop_session:
  "\<not> IsExiting d \<Longrightarrow> sessionSubmits m (solveLoop e off its l d m)"
proof (induction e off its l d m rule: solveLoop.induct)
  case (1 e off its en d m)
  show ?case
  proof (cases "en < maxExtraNonce")
    case False
    with 1 show ?thesis by (simp add: sessionSubmits_def IsExiting_def)
  next
    case True
    show ?thesis
    proof (cases "setExtraNonce e (en + off) d")
      case (Inl p)
      with True 1 show ?thesis by (simp add: sessionSubmits_def)
    next
      case (Inr d1)
      then have "IsExiting d1 = IsExiting d"
        by (auto simp: setExtraNonce_def IsExiting_def Let_def split: sum.splits)
      with 1 True Inr show ?thesis by simp
    qed
  qed
next
  case (2 e off en i d m)
  then show ?case by (simp add: sessionSubmits_def le_maxNonce)
next
  case (3 e off it its en i d m)
  note ne = \<open>\<not> IsExiting d\<close>
  show ?case
  proof (cases "loopSelect e (sel it) d m")
    case (Inl a)
    obtain d' m' where a: "a = (d', m')" by (cases a)
    with Inl loopSelect_session [OF ne, of e "sel it" m d' m'] ne show ?thesis
      by (simp add: sessionSubmits_def le_maxNonce)
  next
    case (Inr a)
    obtain d' m' where a: "a = (d', m')" by (cases a)
    from Inr a loopSelect_session [OF ne, of e "sel it" m d' m']
    have sm: "submitted m' = submitted m" and ne': "\<not> IsExiting d'" by simp_all
    show ?thesis
    proof (cases "searchNonce e (probes it) i d' m'")
      case (Inl p)
      with Inr a ne show ?thesis by (simp add: sessionSubmits_def le_maxNonce)
    next
      case (Inr b)
      obtain d2 m2 where b: "b = (d2, m2)" by (cases b)
      note sn = searchNonce_session [OF Inr [unfolded b] ne']
      have eq: "solveLoop e off (it # its) (Inner en i) d m
                  = solveLoop e off its (Inner en (i + 1)) d2 m2"
        using \<open>loopSelect e (sel it) d m = Inr a\<close> a Inr b ne by (simp add: le_maxNonce)
      show ?thesis
      proof (cases "IsExiting d2")
        case True
        with sn sm show ?thesis
          unfolding eq by (auto simp: solveLoop_exiting sessionSubmits_def IsExiting_def)
      next
        case False
        have "i \<le> maxNonce \<and> \<not> IsExiting d" using ne by (simp add: le_maxNonce)
        from "3.IH"(1) [OF this \<open>loopSelect e (sel it) d m = Inr a\<close> a [symmetric] Inr b [symmetric] False]
        have "sessionSubmits m2 (solveLoop e off its (Inner en (i + 1)) d2 m2)" .
        moreover from sn False sm have "submitted m2 = submitted m"
          by (auto simp: IsExiting_def)
        ultimately show ?thesis unfolding eq
          by (auto simp: sessionSubmits_def split: run.splits)
      qed
    qed
  qed
qed

text \<open>In pool mode the result of \<open>solveBlock\<close> is dropped by \<open>generateBlocks\<close>
  (line 482), so a session makes exactly the submissions of \<open>solveBlock\<close>: one when it
  ends solved, none when it ends aborted.\<close>

lemma solveBlock_session:
  "sessionSubmits m (solveBlock e inp blk quit_ch term_ch worker_id m)"
  unfolding solveBlock_def Let_def
  by (rule solveLoop_session) (simp add: IsExiting_def)

text \<open>Claim C1 at the input where the code departs from it.  In discrete mode one
  template is solved by the first candidate.  The validator submits the block, and
  after \<open>solveBlock\<close> returned true \<open>GenerateNBlocks\<close> submits the same block again
  (line 766): the session makes two submissions.\<close>

theorem GenerateNBlocks_submits_twice:
  "case GenerateNBlocks env0 1 [attempt0] minerIdle of
     Generated hs m \<Rightarrow> length (submitted m) = 2 \<and> submitted m ! 0 = submitted m ! 1
   | _ \<Rightarrow> False"
  by (simp add: GenerateNBlocks_def env0_def attempt0_def minerIdle_def solveBlock_def
        solvingIteration_def zero_less_maxExtraNonce le_maxNonce IsExiting_def setExtraNonce_def
        PutUint64_def block0_def header0_def loopSelect_def quiet_def searchNonce_def
        validate_def Let_def submitBlock_def go_copy_def notifyBlockDone_def incMined_def)

subsection \<open>Enumeration of the nonce space\<close>

text \<open>An iteration without a terminal condition moves the inner counter by one, in
  \<open>uint32\<close> arithmetic, and calls the evaluator with the unchanged header bytes.\<close>

lemma quiet_step:
  assumes "\<not> IsExiting d" and "isQuiet it"
  shows "solveLoop e off (it # its) (Inner en i) d m
     = solveLoop e off its (Inner en (i + 1))
         (d\<lparr>msgBlock := (msgBlock d)\<lparr>Header := (Header (msgBlock d))\<lparr>Nonce := i\<rparr>\<rparr>,
            hashesCompleted := hashesCompleted d + 1\<rparr>)
         (m\<lparr>solverCalls := solverCalls m @ [(headerBytes d, ucast i)]\<rparr>)"
  using assms
  by (simp add: isQuiet_def le_maxNonce loopSelect_def searchNonce_def Let_def)

lemma quiet_iterations:
  assumes "\<not> IsExiting d" and "\<forall>it \<in> set its. isQuiet it"
  shows "\<exists>d' m'. solveLoop e off its (Inner en i) d m
            = Searching en (i + of_nat (length its)) d' m'
        \<and> solverCalls m' = solverCalls m
            @ map (\<lambda>j. (headerBytes d, ucast (i + of_nat j))) [0..<length its]"
  using assms
proof (induction its arbitrary: i d m)
  case Nil
  then show ?case by (simp add: le_maxNonce)
next
  case (Cons it its)
  let ?d = "d\<lparr>msgBlock := (msgBlock d)\<lparr>Header := (Header (msgBlock d))\<lparr>Nonce := i\<rparr>\<rparr>,
            hashesCompleted := hashesCompleted d + 1\<rparr>"
  let ?m = "m\<lparr>solverCalls := solverCalls m @ [(headerBytes d, ucast i)]\<rparr>"
  from Cons.prems have q: "isQuiet it" and qs: "\<forall>it \<in> set its. isQuiet it" by simp_all
  have ne: "\<not> IsExiting ?d" using Cons.prems(1) by (simp add: IsExiting_def)
  from Cons.IH [OF ne qs, of "i + 1" ?m] obtain d' m' where
    r: "solveLoop e off its (Inner en (i + 1)) ?d ?m
          = Searching en (i + 1 + of_nat (length its)) d' m'" and
    c: "solverCalls m' = solverCalls ?m
          @ map (\<lambda>j. (headerBytes ?d, ucast (i + 1 + of_nat j))) [0..<length its]"
    by blast
  have "solveLoop e off (it # its) (Inner en i) d m
          = Searching en (i + of_nat (length (it # its))) d' m'"
    using quiet_step [OF Cons.prems(1) q, of e off its en i m] r by (simp add: add.assoc add.commute)
  moreover have "solverCalls m' = solverCalls m
          @ map (\<lambda>j. (headerBytes d, ucast (i + of_nat j))) [0..<length (it # its)]"
    using c by (simp add: map_upt_Suc ac_simps del: upt_Suc)
  ultimately show ?case by blast
qed

lemma outer_guard_excludes_last:
  "solveLoop e off its (Outer maxExtraNonce) d m = Returned (solved d) d m"
  by simp

text \<open>Claim C9 at the input where the code departs from it.  No terminal condition
  occurs during \<open>2 ^ 32 + 1\<close> iterations.  The loop then stands at extra nonce 0 and
  nonce 1: the inner counter wrapped from \<open>2 ^ 32 - 1\<close> to 0 without leaving the inner
  loop, the extra nonce never moved, and the evaluator was called a second time with the
  header bytes and the nonce of its first call.\<close>

theorem solveBlock_nonce_wraps:
  "\<exists>d' m'. solveBlock env0
        \<lparr>randomOffset = Some 0, startNow = 0, startTxUpdated = 0,
          iterations = replicate (2 ^ 32 + 1) quietIteration\<rparr>
        block0 (Some 1) (Some 0) 1 miner0
      = Searching 0 1 d' m'
    \<and> length (solverCalls m') = 2 ^ 32 + 1
    \<and> solverCalls m' ! 0 = solverCalls m' ! (2 ^ 32)"
proof -
  let ?d0 = "\<lparr>tid = 1, solved = False, exiting = False, msgBlock = block0, headerBytes = [],
               quit_chan = Some 1, term_chan = Some 0, hashesCompleted = 0,
               lastGenerated = 0, lastTxUpdate = 0\<rparr>"
  obtain d1 where s: "setExtraNonce env0 0 ?d0 = Inr d1" and ne: "\<not> IsExiting d1"
    by (simp add: setExtraNonce_def PutUint64_def block0_def header0_def Let_def IsExiting_def)
  let ?its = "replicate (2 ^ 32 + 1) quietIteration"
  have q: "\<forall>it \<in> set ?its. isQuiet it"
    by (simp add: isQuiet_def quietIteration_def quiet_def)
  from quiet_iterations [OF ne q, of env0 0 0 0 miner0] obtain d' m' where
    r: "solveLoop env0 0 ?its (Inner 0 0) d1 miner0
          = Searching 0 (0 + of_nat (length ?its)) d' m'" and
    c: "solverCalls m' = solverCalls miner0
          @ map (\<lambda>j. (headerBytes d1, ucast (0 + of_nat j :: uint32))) [0..<length ?its]"
    by blast
  have w: "(0 + of_nat (length ?its) :: uint32) = 1"
    by simp
  have "solveBlock env0
        \<lparr>randomOffset = Some 0, startNow = 0, startTxUpdated = 0, iterations = ?its\<rparr>
        block0 (Some 1) (Some 0) 1 miner0 = Searching 0 1 d' m'"
    using s r w by (simp add: solveBlock_def zero_less_maxExtraNonce IsExiting_def)
  moreover have len: "length (solverCalls m') = 2 ^ 32 + 1"
    using c by (simp add: miner0_def)
  moreover have "solverCalls m' ! 0 = solverCalls m' ! (2 ^ 32)"
  proof -
    have "solverCalls m' = map (\<lambda>j. (headerBytes d1, ucast (of_nat j :: uint32))) [0..<2 ^ 32 + 1]"
      using c by (simp add: miner0_def)
    then show ?thesis
      by (simp only: nth_map_upt) simp
  qed
  ultimately show ?thesis by blast
qed

subsection \<open>Worker pool controller\<close>

text \<open>\<open>launchWorkers k\<close> appends \<open>k\<close> workers with the next identifiers and starts them.\<close>

lemma launchWorkers_effect:
  "runningWorkers (launchWorkers k m)
     = runningWorkers m @ map Suc [length (miningStoppper m)..<length (miningStoppper m) + k]
   \<and> miningStoppper (launchWorkers k m) = miningStoppper m @ replicate k 0
   \<and> trace (launchWorkers k m)
     = trace m @ map (\<lambda>j. LaunchWorker (Suc j)) [length (miningStoppper m)..<length (miningStoppper m) + k]
   \<and> numWorkers (launchWorkers k m) = numWorkers m"
proof (induction k arbitrary: m)
  case 0
  then show ?case by simp
next
  case (Suc k)
  let ?n = "length (miningStoppper m)"
  have u': "[?n..<Suc (?n + k)] = ?n # [Suc ?n..<Suc (?n + k)]"
    by (simp add: upt_conv_Cons)
  show ?case
    by (simp add: Suc.IH u' replicate_app_Cons_same del: upt_Suc)
qed

text \<open>The retiring loop, started at the last index of a slice longer than a target that
  is not 0, closes the \<open>quit\<close> channels from the last worker down to the target and cuts
  the slice to the target.\<close>

lemma retireLoop_effect:
  "numWorkers m \<noteq> 0 \<Longrightarrow> length (runningWorkers m) = Suc (unat i) \<Longrightarrow>
   unat (numWorkers m) \<le> Suc (unat i) \<Longrightarrow>
   \<exists>m'. retireLoop i m = Inr m'
     \<and> runningWorkers m' = take (unat (numWorkers m)) (runningWorkers m)
     \<and> trace m' = trace m @ map CloseWorkerQuit (rev (drop (unat (numWorkers m)) (runningWorkers m)))
     \<and> numWorkers m' = numWorkers m
     \<and> miningStoppper m' = miningStoppper m"
proof (induction i m rule: retireLoop.induct)
  case (1 i m)
  let ?rw = "runningWorkers m"
  let ?W = "numWorkers m"
  show ?case
  proof (cases "i \<ge> ?W")
    case False
    then have "unat i < unat ?W" by (simp add: word_less_nat_alt not_le)
    with "1.prems" have "unat ?W = length ?rw" by simp
    with False show ?thesis by (subst retireLoop.simps) simp
  next
    case True
    then have le: "unat ?W \<le> unat i" by (simp add: word_le_nat_alt)
    from "1.prems"(1) have "unat ?W \<noteq> 0" by (simp add: unat_0_iff)
    with le have ui0: "unat i \<noteq> 0" by simp
    then have i0: "i \<noteq> 0" by (simp add: unat_0_iff)
    from ui0 have ui: "unat i = Suc (unat (i - 1))"
      by (simp add: unat_minus_one [OF i0])
    have lt: "unat i < length ?rw" using "1.prems"(2) by simp
    let ?m1 = "m\<lparr>trace := trace m @ [CloseWorkerQuit (?rw ! unat i)],
                  runningWorkers := take (unat i) ?rw\<rparr>"
    have p1: "numWorkers ?m1 \<noteq> 0" using "1.prems"(1) by simp
    have p2: "length (runningWorkers ?m1) = Suc (unat (i - 1))"
      using lt ui by simp
    have p3: "unat (numWorkers ?m1) \<le> Suc (unat (i - 1))"
      using le ui by simp
    from "1.IH" [OF True lt p1 p2 p3] obtain m' where
      r: "retireLoop (i - 1) ?m1 = Inr m'" and
      rw: "runningWorkers m' = take (unat ?W) (take (unat i) ?rw)" and
      tr: "trace m' = trace m @ [CloseWorkerQuit (?rw ! unat i)]
             @ map CloseWorkerQuit (rev (drop (unat ?W) (take (unat i) ?rw)))" and
      nw: "numWorkers m' = ?W" and ms: "miningStoppper m' = miningStoppper m"
      by auto
    have full: "?rw = take (unat i) ?rw @ [?rw ! unat i]"
    proof -
      have "take (Suc (unat i)) ?rw = take (unat i) ?rw @ [?rw ! unat i]"
        using lt by (rule take_Suc_conv_app_nth)
      moreover have "take (Suc (unat i)) ?rw = ?rw"
        using "1.prems"(2) by simp
      ultimately show ?thesis by simp
    qed
    have d: "drop (unat ?W) ?rw = drop (unat ?W) (take (unat i) ?rw) @ [?rw ! unat i]"
    proof -
      have "drop (unat ?W) (take (unat i) ?rw @ [?rw ! unat i])
              = drop (unat ?W) (take (unat i) ?rw) @ [?rw ! unat i]"
        using le lt by simp
      with full show ?thesis by simp
    qed
    have "retireLoop i m = Inr m'"
      using True lt r by (subst retireLoop.simps) simp
    moreover have "runningWorkers m' = take (unat ?W) ?rw"
      using rw le by (simp add: min_def)
    moreover have "trace m' = trace m @ map CloseWorkerQuit (rev (drop (unat ?W) ?rw))"
      using tr d by simp
    ultimately show ?thesis using nw ms by blast
  qed
qed

text \<open>The resize branch brings the length of \<open>runningWorkers\<close> to the configured count,
  when that count is not 0 or no worker is running.\<close>

lemma controllerResize_effect:
  assumes len: "length (runningWorkers m) < 2 ^ 32"
    and nz: "numWorkers m \<noteq> 0 \<or> runningWorkers m = []"
  shows "\<exists>m'. controllerResize m = Inr m'
     \<and> length (runningWorkers m') = unat (numWorkers m)
     \<and> runningWorkers m' = take (unat (numWorkers m)) (runningWorkers m)
          @ map Suc [length (miningStoppper m)..<
                     length (miningStoppper m) + (unat (numWorkers m) - length (runningWorkers m))]
     \<and> trace m' = trace m
          @ map CloseWorkerQuit (rev (drop (unat (numWorkers m)) (runningWorkers m)))
          @ map (\<lambda>j. LaunchWorker (Suc j)) [length (miningStoppper m)..<
                     length (miningStoppper m) + (unat (numWorkers m) - length (runningWorkers m))]
     \<and> numWorkers m' = numWorkers m"
proof -
  let ?rw = "runningWorkers m"
  let ?W = "numWorkers m"
  let ?R = "of_nat (length ?rw) :: uint32"
  have uR: "unat ?R = length ?rw"
    using len by (simp add: unat_of_nat)
  consider (eq) "?W = ?R" | (more) "?W > ?R" | (less) "?W < ?R"
    using linorder_cases by blast
  then show ?thesis
  proof cases
    case eq
    then have "unat ?W = length ?rw" using uR by simp
    with eq show ?thesis by (simp add: controllerResize_def)
  next
    case more
    then have lt: "length ?rw < unat ?W" using uR by (simp add: word_less_nat_alt)
    have "?R \<le> ?W" using more by simp
    then have sub: "unat (?W - ?R) = unat ?W - length ?rw"
      using uR by (simp add: unat_sub)
    have ne: "?W \<noteq> ?R" using more by auto
    have "controllerResize m = Inr (launchWorkers (unat ?W - length ?rw) m)"
      using more ne sub by (simp add: controllerResize_def Let_def)
    with lt show ?thesis
      by (simp add: launchWorkers_effect)
  next
    case less
    then have lt: "unat ?W < length ?rw" using uR by (simp add: word_less_nat_alt)
    have "?rw \<noteq> []"
    proof
      assume "?rw = []"
      with lt show False by simp
    qed
    with nz have W0: "?W \<noteq> 0" by simp
    have "length ?rw \<noteq> 0" using lt by linarith
    then have "unat ?R \<noteq> 0" by (metis uR)
    then have R0: "?R \<noteq> 0" by (simp add: unat_0_iff)
    have u1: "unat (?R - 1) = length ?rw - 1"
      using uR by (simp add: unat_minus_one [OF R0])
    have a: "length ?rw = Suc (unat (?R - 1))" using u1 lt by simp
    have b: "unat ?W \<le> Suc (unat (?R - 1))" using u1 lt by simp
    from retireLoop_effect [OF W0 a b] obtain m' where
      r: "retireLoop (?R - 1) m = Inr m'" and
      rw: "runningWorkers m' = take (unat ?W) ?rw" and
      tr: "trace m' = trace m @ map CloseWorkerQuit (rev (drop (unat ?W) ?rw))" and
      nw: "numWorkers m' = ?W"
      by blast
    have ne: "?W \<noteq> ?R" and ng: "\<not> ?W > ?R" using less by auto
    have "controllerResize m = Inr m'"
      using ne ng r by (simp add: controllerResize_def Let_def)
    with rw tr nw lt show ?thesis by simp
  qed
qed

text \<open>Claim C5.  \<open>SetNumWorkers n\<close> with \<open>n \<ge> 0\<close> on a running pool: \<open>NumWorkers\<close>
  returns \<open>n\<close> at once.  For \<open>n = 0\<close> the miner is stopped, every worker in the list is
  told to quit, and no resize signal is sent.  For \<open>n > 0\<close> the signal is sent, and when
  the controller handles it the list of running workers has length \<open>n\<close>: it keeps the
  \<open>n\<close> oldest workers and closes the \<open>quit\<close> channels of the others, newest first, or
  it appends the missing workers with the next identifiers and launches them.\<close>

theorem resize_converges:
  assumes "started m" and "\<not> discreteMining m" and "0 \<le> sint n"
    and "length (runningWorkers m) < 2 ^ 32"
  shows "NumWorkers (SetNumWorkers e n m) = n
     \<and> (n = 0 \<longrightarrow>
          \<not> IsMining (SetNumWorkers e n m)
          \<and> trace (SetNumWorkers e n m)
              = trace m @ [CloseQuit] @ map CloseWorkerQuit (runningWorkers m)
                  @ [WorkerWgWait, CloseSpeedMonitorQuit, WgDone, WgWait])
     \<and> (n \<noteq> 0 \<longrightarrow>
          trace (SetNumWorkers e n m) = trace m @ [SendUpdateNumWorkers]
          \<and> (\<exists>m'. controllerResize (SetNumWorkers e n m) = Inr m'
                \<and> length (runningWorkers m') = unat n
                \<and> runningWorkers m' = take (unat n) (runningWorkers m)
                     @ map Suc [length (miningStoppper m)..<
                                length (miningStoppper m) + (unat n - length (runningWorkers m))]
                \<and> trace m' = trace (SetNumWorkers e n m)
                     @ map CloseWorkerQuit (rev (drop (unat n) (runningWorkers m)))
                     @ map (\<lambda>j. LaunchWorker (Suc j)) [length (miningStoppper m)..<
                                length (miningStoppper m) + (unat n - length (runningWorkers m))]))"
proof -
  have neg: "\<not> sint n < 0" using assms(3) by simp
  have nw: "NumWorkers (SetNumWorkers e n m) = n"
    using neg by (simp add: NumWorkers_def SetNumWorkers_def Let_def)
  have zero: "n = 0 \<longrightarrow>
          \<not> IsMining (SetNumWorkers e n m)
          \<and> trace (SetNumWorkers e n m)
              = trace m @ [CloseQuit] @ map CloseWorkerQuit (runningWorkers m)
                  @ [WorkerWgWait, CloseSpeedMonitorQuit, WgDone, WgWait]"
    using assms(1,2)
    by (simp add: IsMining_def SetNumWorkers_def Stop_def controllerShutdown_def Let_def)
  have pos: "n \<noteq> 0 \<longrightarrow>
          trace (SetNumWorkers e n m) = trace m @ [SendUpdateNumWorkers]
          \<and> (\<exists>m'. controllerResize (SetNumWorkers e n m) = Inr m'
                \<and> length (runningWorkers m') = unat n
                \<and> runningWorkers m' = take (unat n) (runningWorkers m)
                     @ map Suc [length (miningStoppper m)..<
                                length (miningStoppper m) + (unat n - length (runningWorkers m))]
                \<and> trace m' = trace (SetNumWorkers e n m)
                     @ map CloseWorkerQuit (rev (drop (unat n) (runningWorkers m)))
                     @ map (\<lambda>j. LaunchWorker (Suc j)) [length (miningStoppper m)..<
                                length (miningStoppper m) + (unat n - length (runningWorkers m))])"
  proof
    assume n0: "n \<noteq> 0"
    let ?s = "SetNumWorkers e n m"
    have s: "?s = m\<lparr>numWorkers := n, trace := trace m @ [SendUpdateNumWorkers]\<rparr>"
      using n0 neg assms(1) by (simp add: SetNumWorkers_def Let_def)
    have l: "length (runningWorkers ?s) < 2 ^ 32" using assms(4) s by simp
    have z: "numWorkers ?s \<noteq> 0 \<or> runningWorkers ?s = []" using n0 s by simp
    have rs: "runningWorkers ?s = runningWorkers m" and ms: "miningStoppper ?s = miningStoppper m"
      and ns: "numWorkers ?s = n" and ts: "trace ?s = trace m @ [SendUpdateNumWorkers]"
      by (simp_all add: s)
    from controllerResize_effect [OF l z] obtain m' where
      c: "controllerResize ?s = Inr m'" and
      c1: "length (runningWorkers m') = unat (numWorkers ?s)" and
      c2: "runningWorkers m' = take (unat (numWorkers ?s)) (runningWorkers ?s)
          @ map Suc [length (miningStoppper ?s)..<
                     length (miningStoppper ?s) + (unat (numWorkers ?s) - length (runningWorkers ?s))]" and
      c3: "trace m' = trace ?s
          @ map CloseWorkerQuit (rev (drop (unat (numWorkers ?s)) (runningWorkers ?s)))
          @ map (\<lambda>j. LaunchWorker (Suc j)) [length (miningStoppper ?s)..<
                     length (miningStoppper ?s) + (unat (numWorkers ?s) - length (runningWorkers ?s))]"
      by blast
    from c c1 c2 c3 ts show
      "trace ?s = trace m @ [SendUpdateNumWorkers]
          \<and> (\<exists>m'. controllerResize ?s = Inr m'
                \<and> length (runningWorkers m') = unat n
                \<and> runningWorkers m' = take (unat n) (runningWorkers m)
                     @ map Suc [length (miningStoppper m)..<
                                length (miningStoppper m) + (unat n - length (runningWorkers m))]
                \<and> trace m' = trace ?s
                     @ map CloseWorkerQuit (rev (drop (unat n) (runningWorkers m)))
                     @ map (\<lambda>j. LaunchWorker (Suc j)) [length (miningStoppper m)..<
                                length (miningStoppper m) + (unat n - length (runningWorkers m))])"
      unfolding rs ms ns by blast
  qed
  from nw zero pos show ?thesis by blast
qed

theorem resize_converges_witness:
  "started miner0 \<and> \<not> discreteMining miner0 \<and> 0 \<le> sint (1 :: int32)
   \<and> length (runningWorkers miner0) < 2 ^ 32
   \<and> NumWorkers (SetNumWorkers env0 1 miner0) = 1
   \<and> (\<exists>m'. controllerResize (SetNumWorkers env0 1 miner0) = Inr m'
         \<and> runningWorkers m' = [1]
         \<and> trace m' = [SendUpdateNumWorkers, CloseWorkerQuit 3, CloseWorkerQuit 2])"
proof -
  have h1: "started miner0" and h2: "\<not> discreteMining miner0"
    and h4: "length (runningWorkers miner0) < 2 ^ 32"
    by (simp_all add: miner0_def)
  have h3: "0 \<le> sint (1 :: int32)" by simp
  have n1: "(1 :: int32) \<noteq> 0" by simp
  from resize_converges [OF h1 h2 h3 h4, of env0] n1 obtain m' where
    nw: "NumWorkers (SetNumWorkers env0 1 miner0) = 1" and
    ts: "trace (SetNumWorkers env0 1 miner0) = trace miner0 @ [SendUpdateNumWorkers]" and
    c: "controllerResize (SetNumWorkers env0 1 miner0) = Inr m'" and
    rw: "runningWorkers m' = take (unat (1 :: int32)) (runningWorkers miner0)
           @ map Suc [length (miningStoppper miner0)..<
                      length (miningStoppper miner0) + (unat (1 :: int32) - length (runningWorkers miner0))]" and
    tr: "trace m' = trace (SetNumWorkers env0 1 miner0)
           @ map CloseWorkerQuit (rev (drop (unat (1 :: int32)) (runningWorkers miner0)))
           @ map (\<lambda>j. LaunchWorker (Suc j)) [length (miningStoppper miner0)..<
                      length (miningStoppper miner0) + (unat (1 :: int32) - length (runningWorkers miner0))]"
    by blast
  have "runningWorkers m' = [1]" using rw by (simp add: miner0_def)
  moreover have "trace m' = [SendUpdateNumWorkers, CloseWorkerQuit 3, CloseWorkerQuit 2]"
    using tr ts by (simp add: miner0_def)
  ultimately show ?thesis using nw c h1 h2 h3 h4 by blast
qed

text \<open>The retiring loop with a target of 0 is not covered by the theorem: its counter
  wraps below 0 and the next index is out of range.  \<open>SetNumWorkers 0\<close> does not lead
  there, since it stops the pool and sends no signal.\<close>

lemma controllerResize_zero_panics:
  "controllerResize (miner0\<lparr>numWorkers := 0\<rparr>) = Inl IndexOutOfRange"
  by (simp add: controllerResize_def miner0_def retireLoop.simps)

subsection \<open>Shutdown of the pool\<close>

text \<open>The workers started are read off the trace; closing channels starts none.\<close>

lemma launched_append: "launched (xs @ ys) = launched xs @ launched ys"
  by (induction xs rule: launched.induct) simp_all

lemma launched_closes: "launched (map CloseWorkerQuit xs) = []"
  by (induction xs) simp_all

lemma launched_launches: "launched (map (\<lambda>j. LaunchWorker (Suc j)) xs) = map Suc xs"
  by (induction xs) simp_all

lemma launchWorkers_wg: "workerWg (launchWorkers k m) = workerWg m + k"
  by (induction k arbitrary: m) simp_all

text \<open>The resize branch starts workers with fresh identifiers, counts each in the wait
  group, and never closes \<open>speedMonitorQuit\<close>.\<close>

lemma retireLoop_frame:
  "retireLoop i m = Inr m' \<Longrightarrow>
   miningStoppper m' = miningStoppper m \<and> workerWg m' = workerWg m
   \<and> launched (trace m') = launched (trace m)
   \<and> (CloseSpeedMonitorQuit \<in> set (trace m') \<longleftrightarrow> CloseSpeedMonitorQuit \<in> set (trace m))
   \<and> set (trace m) \<subseteq> set (trace m')"
proof (induction i m rule: retireLoop.induct)
  case (1 i m)
  show ?case
  proof (cases "i \<ge> numWorkers m \<and> unat i < length (runningWorkers m)")
    case False
    with "1.prems" show ?thesis
      by (subst (asm) retireLoop.simps) (auto split: if_splits)
  next
    case True
    let ?m1 = "m\<lparr>trace := trace m @ [CloseWorkerQuit (runningWorkers m ! unat i)],
                  runningWorkers := take (unat i) (runningWorkers m)\<rparr>"
    from True "1.prems" have r: "retireLoop (i - 1) ?m1 = Inr m'"
      by (subst (asm) retireLoop.simps) simp
    from True have a: "numWorkers m \<le> i" and b: "unat i < length (runningWorkers m)" by simp_all
    from "1.IH" [OF a b r] show ?thesis
      by (auto simp: launched_append)
  qed
qed

lemma controllerResize_frame:
  assumes "controllerResize m = Inr m'"
  shows "\<exists>k. miningStoppper m' = miningStoppper m @ replicate k 0
     \<and> workerWg m' = workerWg m + k
     \<and> launched (trace m') = launched (trace m)
          @ map Suc [length (miningStoppper m)..<length (miningStoppper m) + k]
     \<and> (CloseSpeedMonitorQuit \<in> set (trace m') \<longleftrightarrow> CloseSpeedMonitorQuit \<in> set (trace m))
     \<and> set (trace m) \<subseteq> set (trace m')"
proof -
  let ?R = "of_nat (length (runningWorkers m)) :: uint32"
  consider (eq) "numWorkers m = ?R" | (more) "numWorkers m \<noteq> ?R" "numWorkers m > ?R"
    | (less) "numWorkers m \<noteq> ?R" "\<not> numWorkers m > ?R"
    by blast
  then show ?thesis
  proof cases
    case eq
    with assms have "m' = m" by (simp add: controllerResize_def)
    then have "miningStoppper m' = miningStoppper m @ replicate 0 0
     \<and> workerWg m' = workerWg m + 0
     \<and> launched (trace m') = launched (trace m)
          @ map Suc [length (miningStoppper m)..<length (miningStoppper m) + 0]
     \<and> (CloseSpeedMonitorQuit \<in> set (trace m') \<longleftrightarrow> CloseSpeedMonitorQuit \<in> set (trace m))
     \<and> set (trace m) \<subseteq> set (trace m')"
      by simp
    then show ?thesis by blast
  next
    case more
    let ?k = "unat (numWorkers m - ?R)"
    from more assms have m': "m' = launchWorkers ?k m"
      by (simp add: controllerResize_def Let_def)
    have "miningStoppper m' = miningStoppper m @ replicate ?k 0
     \<and> workerWg m' = workerWg m + ?k
     \<and> launched (trace m') = launched (trace m)
          @ map Suc [length (miningStoppper m)..<length (miningStoppper m) + ?k]
     \<and> (CloseSpeedMonitorQuit \<in> set (trace m') \<longleftrightarrow> CloseSpeedMonitorQuit \<in> set (trace m))
     \<and> set (trace m) \<subseteq> set (trace m')"
      unfolding m'
      by (auto simp: launchWorkers_effect launchWorkers_wg launched_append launched_launches)
    then show ?thesis by blast
  next
    case less
    with assms have "retireLoop (?R - 1) m = Inr m'"
      by (simp add: controllerResize_def Let_def)
    from retireLoop_frame [OF this]
    have "miningStoppper m' = miningStoppper m @ replicate 0 0
     \<and> workerWg m' = workerWg m + 0
     \<and> launched (trace m') = launched (trace m)
          @ map Suc [length (miningStoppper m)..<length (miningStoppper m) + 0]
     \<and> (CloseSpeedMonitorQuit \<in> set (trace m') \<longleftrightarrow> CloseSpeedMonitorQuit \<in> set (trace m))
     \<and> set (trace m) \<subseteq> set (trace m')"
      by simp
    then show ?thesis by blast
  qed
qed

text \<open>When the wait group is at 0 every worker that was started has called \<open>Done\<close>; a
  worker that has not is counted in the wait group, and the controller has not closed
  \<open>speedMonitorQuit\<close>.\<close>

lemma all_exited:
  assumes "distinct xs" and "distinct ys" and "set xs \<subseteq> set ys" and "length xs = length ys"
  shows "set xs = set ys"
proof -
  have "card (set xs) = card (set ys)"
    using assms(1,2,4) by (simp add: distinct_card)
  with assms(3) show ?thesis
    by (simp add: card_subset_eq)
qed

lemma inv_no_worker_left:
  assumes "poolInv s" and "workerWg (pm s) = 0"
  shows "\<not> alive w s"
proof -
  from assms have "set (exited s) = set (launched (trace (pm s)))"
    by (intro all_exited) (simp_all add: poolInv_def)
  then show ?thesis by (simp add: alive_def)
qed

lemma inv_alive_counted:
  assumes "poolInv s" and "alive w s"
  shows "0 < workerWg (pm s)"
  using assms inv_no_worker_left [of s w] by auto

lemma inv_running:
  assumes "poolInv s" and "alive w s"
  shows "ctrl s \<noteq> CtrlDone" and "\<not> monitorStopped (pm s)"
proof -
  from inv_alive_counted [OF assms] have p: "0 < workerWg (pm s)" .
  with assms(1) show c: "ctrl s \<noteq> CtrlDone" by (auto simp: poolInv_def)
  with assms(1) show "\<not> monitorStopped (pm s)" by (simp add: poolInv_def monitorStopped_def)
qed

text \<open>Every step keeps the invariant, and the pool starts in it.\<close>

lemma poolStep_inv:
  assumes inv: "poolInv s" and step: "poolStep a s = Some s'"
  shows "poolInv s'"
proof (cases a)
  case ActStop
  with step have s': "s' = s\<lparr>pm := (pm s)\<lparr>trace := trace (pm s) @ [CloseQuit]\<rparr>\<rparr>"
    and nq: "CloseQuit \<notin> set (trace (pm s))"
    by (auto split: if_splits)
  from inv nq have "ctrl s = CtrlLoop" by (auto simp: poolInv_def)
  with inv show ?thesis
    unfolding s' by (auto simp: poolInv_def launched_append)
next
  case (ActResize n)
  with step obtain m' where loop: "ctrl s = CtrlLoop"
    and r: "controllerResize ((pm s)\<lparr>numWorkers := n\<rparr>) = Inr m'" and s': "s' = s\<lparr>pm := m'\<rparr>"
    by (auto split: if_splits sum.splits)
  from controllerResize_frame [OF r] obtain k where
    ms: "miningStoppper m' = miningStoppper (pm s) @ replicate k 0" and
    wg: "workerWg m' = workerWg (pm s) + k" and
    la: "launched (trace m') = launched (trace (pm s))
          @ map Suc [length (miningStoppper (pm s))..<length (miningStoppper (pm s)) + k]" and
    mq: "CloseSpeedMonitorQuit \<in> set (trace m') \<longleftrightarrow> CloseSpeedMonitorQuit \<in> set (trace (pm s))" and
    sub: "set (trace (pm s)) \<subseteq> set (trace m')"
    by auto
  have d: "distinct (launched (trace m'))"
    using inv unfolding la by (auto simp: poolInv_def distinct_map)
  have b: "\<forall>w \<in> set (launched (trace m')). w \<le> length (miningStoppper m')"
    using inv unfolding la ms by (auto simp: poolInv_def)
  from inv loop d b wg mq sub show ?thesis
    unfolding s' by (auto simp: poolInv_def la)
next
  case ActRecvQuit
  with step inv show ?thesis
    by (auto simp: poolInv_def split: if_splits)
next
  case ActCloseNext
  with step obtain q qs where c: "ctrl s = CtrlClosing (q # qs)"
    and s': "s' = s\<lparr>pm := (pm s)\<lparr>trace := trace (pm s) @ [CloseWorkerQuit q]\<rparr>,
                  ctrl := CtrlClosing qs\<rparr>"
    by (auto split: ctrl_pc.splits list.splits)
  from inv c show ?thesis
    unfolding s' by (auto simp: poolInv_def launched_append)
next
  case ActWaitReturns
  with step have c: "ctrl s = CtrlClosing []" and z: "workerWg (pm s) = 0"
    and s': "s' = s\<lparr>pm := (pm s)\<lparr>trace := trace (pm s)
                                   @ [WorkerWgWait, CloseSpeedMonitorQuit, WgDone]\<rparr>,
                    ctrl := CtrlDone\<rparr>"
    by (auto split: if_splits)
  from inv c z show ?thesis
    unfolding s' by (auto simp: poolInv_def launched_append)
next
  case (ActReport w v)
  with step have al: "alive w s"
    and s': "s' = s\<lparr>pm := (pm s)\<lparr>hashReports := hashReports (pm s) @ [v]\<rparr>,
                    lateReports := lateReports s + (if monitorStopped (pm s) then 1 else 0)\<rparr>"
    by (auto split: if_splits)
  from inv_running [OF inv al] inv show ?thesis
    unfolding s' by (auto simp: poolInv_def)
next
  case (ActExit w)
  with step have al: "alive w s" and cl: "CloseWorkerQuit w \<in> set (trace (pm s))"
    and s': "s' = s\<lparr>pm := (pm s)\<lparr>workerWg := workerWg (pm s) - 1\<rparr>,
                    exited := exited s @ [w]\<rparr>"
    by (auto split: if_splits)
  from inv_alive_counted [OF inv al] inv_running [OF inv al] inv al cl show ?thesis
    unfolding s' by (auto simp: poolInv_def alive_def)
qed

lemma poolRun_inv:
  "poolInv s \<Longrightarrow> poolRun as s = Some s' \<Longrightarrow> poolInv s'"
proof (induction as arbitrary: s)
  case Nil
  then show ?case by simp
next
  case (Cons a as)
  from Cons.prems(2) obtain s1 where a: "poolStep a s = Some s1" and r: "poolRun as s1 = Some s'"
    by (auto split: option.splits)
  from Cons.IH [OF poolStep_inv [OF Cons.prems(1) a] r] show ?case .
qed

lemma poolStart_inv:
  assumes "trace m = []" and "workerWg m = 0"
  shows "poolInv (poolStart m)"
  using assms
  by (auto simp: poolInv_def poolStart_def controllerStart_def launchWorkers_effect
        launchWorkers_wg launched_launches distinct_map)

text \<open>Claim C6.  In every state that the pool reaches from its start, no report was
  sent after \<open>speedMonitorQuit\<close> was closed.  Once it is closed, the trace ends with the
  wait on the workers' wait group, the close of \<open>speedMonitorQuit\<close> and the controller's
  \<open>Done\<close>; before them the \<open>quit\<close> channel of every worker that was started has been
  closed and every such worker has exited; and no worker can send a report any more.\<close>

theorem shutdown_order:
  assumes "trace m = []" and "workerWg m = 0" and "poolRun acts (poolStart m) = Some s"
  shows "lateReports s = 0
     \<and> (monitorStopped (pm s) \<longrightarrow>
          (\<exists>pre. trace (pm s) = pre @ [WorkerWgWait, CloseSpeedMonitorQuit, WgDone]
             \<and> CloseSpeedMonitorQuit \<notin> set pre
             \<and> (\<forall>w \<in> set (launched (trace (pm s))).
                   CloseWorkerQuit w \<in> set pre \<and> w \<in> set (exited s)))
          \<and> (\<forall>w v. poolStep (ActReport w v) s = None))"
proof -
  from poolRun_inv [OF poolStart_inv [OF assms(1,2)] assms(3)] have inv: "poolInv s" .
  then have l: "lateReports s = 0" by (simp add: poolInv_def)
  have "monitorStopped (pm s) \<longrightarrow>
          (\<exists>pre. trace (pm s) = pre @ [WorkerWgWait, CloseSpeedMonitorQuit, WgDone]
             \<and> CloseSpeedMonitorQuit \<notin> set pre
             \<and> (\<forall>w \<in> set (launched (trace (pm s))).
                   CloseWorkerQuit w \<in> set pre \<and> w \<in> set (exited s)))
          \<and> (\<forall>w v. poolStep (ActReport w v) s = None)"
  proof
    assume st: "monitorStopped (pm s)"
    with inv have fin: "ctrl s = CtrlDone"
      by (auto simp: poolInv_def monitorStopped_def)
    with inv obtain pre where z: "workerWg (pm s) = 0"
      and tr: "trace (pm s) = pre @ [WorkerWgWait, CloseSpeedMonitorQuit, WgDone]"
      and np: "CloseSpeedMonitorQuit \<notin> set pre"
      by (auto simp: poolInv_def)
    have na: "\<And>w. \<not> alive w s" using inv_no_worker_left [OF inv z] .
    have ex: "\<forall>w \<in> set (launched (trace (pm s))). w \<in> set (exited s)"
      using na by (auto simp: alive_def)
    have cl: "\<forall>w \<in> set (launched (trace (pm s))). CloseWorkerQuit w \<in> set pre"
    proof
      fix w assume "w \<in> set (launched (trace (pm s)))"
      with ex have "w \<in> set (exited s)" by simp
      with inv have "CloseWorkerQuit w \<in> set (trace (pm s))" by (simp add: poolInv_def)
      then show "CloseWorkerQuit w \<in> set pre" unfolding tr by simp
    qed
    have "\<forall>w v. poolStep (ActReport w v) s = None" using na by simp
    with tr np ex cl show "(\<exists>pre. trace (pm s) = pre @ [WorkerWgWait, CloseSpeedMonitorQuit, WgDone]
             \<and> CloseSpeedMonitorQuit \<notin> set pre
             \<and> (\<forall>w \<in> set (launched (trace (pm s))).
                   CloseWorkerQuit w \<in> set pre \<and> w \<in> set (exited s)))
          \<and> (\<forall>w v. poolStep (ActReport w v) s = None)"
      by blast
  qed
  with l show ?thesis by blast
qed

theorem shutdown_order_witness:
  "trace minerIdle = [] \<and> workerWg minerIdle = 0
   \<and> (\<exists>s. poolRun [ActStop, ActRecvQuit, ActCloseNext, ActReport 1 7, ActExit 1, ActWaitReturns]
              (poolStart minerIdle) = Some s
          \<and> monitorStopped (pm s) \<and> lateReports s = 0 \<and> exited s = [1]
          \<and> poolStep (ActReport 1 8) s = None)"
proof -
  let ?s = "\<lparr>pm = minerIdle\<lparr>runningWorkers := [1], miningStoppper := [0], hashReports := [7],
                trace := [LaunchWorker 1, CloseQuit, CloseWorkerQuit 1, WorkerWgWait,
                          CloseSpeedMonitorQuit, WgDone]\<rparr>,
             ctrl = CtrlDone, exited = [1], lateReports = 0\<rparr>"
  have h1: "trace minerIdle = []" and h2: "workerWg minerIdle = 0"
    by (simp_all add: minerIdle_def)
  have r: "poolRun [ActStop, ActRecvQuit, ActCloseNext, ActReport 1 7, ActExit 1, ActWaitReturns]
              (poolStart minerIdle) = Some ?s"
    by (simp add: poolStart_def controllerStart_def minerIdle_def alive_def monitorStopped_def)
  have st: "monitorStopped (pm ?s)" by (simp add: monitorStopped_def)
  from shutdown_order [OF h1 h2 r] st have "lateReports ?s = 0"
    and "poolStep (ActReport 1 8) ?s = None"
    by blast+
  with h1 h2 r st show ?thesis by simp
qed

text \<open>While a worker has not exited the wait does not return: the controller cannot
  close \<open>speedMonitorQuit\<close>.\<close>

lemma wait_blocks_while_worker_runs:
  "poolRun [ActStop, ActRecvQuit, ActCloseNext, ActWaitReturns] (poolStart minerIdle) = None"
  by (simp add: poolStart_def controllerStart_def minerIdle_def)

subsection \<open>Null probes and the continued search\<close>

text \<open>The parts of claim C3 that the code has: a null probe is never answered with 1; a
  session marked exiting is answered with 2; a fired \<open>term\<close> or \<open>quit\<close> marks the session
  exiting and is answered with 2; with nothing ready the answer is 0 and nothing
  changes.\<close>

lemma validate_null_probe:
  assumes "validate e r 0 d m = Inr (rc, d', m')"
  shows "rc \<noteq> 1
     \<and> (exiting d \<longrightarrow> rc = 2)
     \<and> (\<not> exiting d \<and> (selected r = CaseTerm \<or> selected r = CaseQuit) \<longrightarrow> rc = 2 \<and> exiting d')
     \<and> (\<not> exiting d \<and> selected r = CaseDefault \<longrightarrow> rc = 0 \<and> d' = d \<and> m' = m)"
  using assms
  by (auto simp: validate_def split: select_case.splits prod.splits if_splits)

text \<open>After the validator answered a null probe on a stale template with 2, the loop of
  \<open>solveBlock\<close> goes on: it calls the evaluator for the next nonce.\<close>

lemma stale_probe_search_goes_on:
  "\<exists>d' m'. solveLoop env0 0 [\<lparr>sel = quiet, probes = [(staleTick, 0)]\<rparr>, quietIteration]
              (Inner 0 0) data0 miner0
            = Searching 0 2 d' m'
     \<and> map snd (solverCalls m') = [0, 1]"
  by (simp add: le_maxNonce IsExiting_def data0_def loopSelect_def quiet_def searchNonce_def
        validate_def updateBlockTime_def staleTick_def second_def Let_def quietIteration_def
        miner0_def)

subsection \<open>Discrete generation\<close>

text \<open>Whenever \<open>solveBlock\<close> returns true, the submission that
  \<open>GenerateNBlocks\<close> then makes (line 766) is the second one of the same block.\<close>

lemma discrete_pass_submits_twice:
  assumes "solveBlock e inp blk None None 1 m = Returned True d' m'"
    and "submitBlock e (msgBlock d') m' = (res, m2)"
  shows "submitted m2 = submitted m @ [msgBlock d', msgBlock d']"
proof -
  from solveBlock_session [of m e inp blk None None 1] assms(1)
  have "submitted m' = submitted m @ [msgBlock d']"
    by (simp add: sessionSubmits_def)
  with submitBlock_submitted [OF assms(2)] show ?thesis by simp
qed

end
